theory Spec2Isabelle
  imports Main "HOL-Library.Word"
begin

unbundle bit_operations_syntax

section \<open>Machine types\<close>

type_synonym u8 = "8 word"
type_synonym u16 = "16 word"
type_synonym u32 = "32 word"
type_synonym s8 = "8 word"
type_synonym s32 = "32 word"

text \<open>
  The driver reads multi-byte registers through a \<^verbatim>\<open>(uint8_t*)\<close> cast of a local
  variable. All supported targets are little-endian, so byte 0 is the least significant.
\<close>

definition bytes_of_u16 :: "u16 \<Rightarrow> u8 list" where
  "bytes_of_u16 v = [ucast v, ucast (drop_bit 8 v)]"

definition u16_of_bytes :: "u8 list \<Rightarrow> u16" where
  "u16_of_bytes bs = ucast (bs ! 0) OR push_bit 8 (ucast (bs ! 1))"

definition bytes_of_u32 :: "u32 \<Rightarrow> u8 list" where
  "bytes_of_u32 v = [ucast v, ucast (drop_bit 8 v), ucast (drop_bit 16 v), ucast (drop_bit 24 v)]"

definition u32_of_bytes :: "u8 list \<Rightarrow> u32" where
  "u32_of_bytes bs = ucast (bs ! 0) OR push_bit 8 (ucast (bs ! 1))
                     OR push_bit 16 (ucast (bs ! 2)) OR push_bit 24 (ucast (bs ! 3))"

section \<open>The environment: clock and TwoWire buses\<close>

text \<open>
  The Arduino \<^verbatim>\<open>TwoWire\<close> class, \<^verbatim>\<open>micros()\<close>, \<^verbatim>\<open>delay()\<close> and
  \<^verbatim>\<open>delayMicroseconds()\<close> are external to the driver. They are modelled at their
  documented interface: a bus object queues the bytes of a frame, \<^verbatim>\<open>endTransmission\<close> hands the
  frame to whatever is attached and yields its status byte, \<^verbatim>\<open>requestFrom\<close> fills the receive
  queue with the bytes the target delivers and yields their count, \<^verbatim>\<open>read\<close> pops the receive
  queue (or yields -1 when it is empty). What is attached to the buses is an arbitrary
  deterministic state machine, given by the two response functions of \<open>hardware\<close>;
  \<open>busTime k\<close> is the time in microseconds that a transaction of \<open>k\<close> bytes takes.
  Every delay and every transaction is recorded, in order, in the \<open>trace\<close> of the world.

  Several bus objects may exist; \<open>Wire\<close> is the global default instance, \<open>Wire1\<close> the
  second instance that boards with two controllers provide.
\<close>

type_synonym busid = nat

definition Wire :: busid where
  "Wire = 0"

definition Wire1 :: busid where
  "Wire1 = 1"

datatype event =
    BusBegin busid
  | DelayMs nat
  | DelayUs u32
  | Frame nat busid u8 "u8 list" u8
  | Request nat busid u8 u8 "u8 list"

text \<open>
  \<open>Frame t b a bytes st\<close>: at time \<open>t\<close> the frame \<open>bytes\<close> was dispatched on bus \<open>b\<close> to
  target \<open>a\<close> and ended with status \<open>st\<close>.
  \<open>Request t b a n bytes\<close>: at time \<open>t\<close>, \<open>n\<close> bytes were requested from target \<open>a\<close> on bus
  \<open>b\<close>, which delivered \<open>bytes\<close> (none when it refuses).
\<close>

record twowire =
  txAddress :: u8
  txBuffer :: "u8 list"
  rxBuffer :: "u8 list"

record 'd hardware =
  on_frame :: "busid \<Rightarrow> u8 \<Rightarrow> u8 list \<Rightarrow> 'd \<Rightarrow> u8 \<times> 'd"
  on_request :: "busid \<Rightarrow> u8 \<Rightarrow> u8 \<Rightarrow> 'd \<Rightarrow> u8 list \<times> 'd"
  busTime :: "nat \<Rightarrow> nat"

record 'd world =
  hw :: "'d hardware"
  dev :: 'd
  clock :: nat
  buses :: "busid \<Rightarrow> twowire"
  trace :: "event list"

text \<open>\<open>clock\<close> counts microseconds since start; \<^verbatim>\<open>micros()\<close> is its low 32 bits.\<close>

definition micros :: "'d world \<Rightarrow> u32" where
  "micros w = of_nat (clock w)"

definition delay :: "nat \<Rightarrow> 'd world \<Rightarrow> 'd world" where
  "delay ms w = w\<lparr>clock := clock w + 1000 * ms, trace := trace w @ [DelayMs ms]\<rparr>"

definition delayMicroseconds :: "u32 \<Rightarrow> 'd world \<Rightarrow> 'd world" where
  "delayMicroseconds us w = w\<lparr>clock := clock w + unat us, trace := trace w @ [DelayUs us]\<rparr>"

text \<open>Time passing between two calls of the driver.\<close>

definition elapse :: "nat \<Rightarrow> 'd world \<Rightarrow> 'd world" where
  "elapse dt w = w\<lparr>clock := clock w + dt\<rparr>"

definition tw_begin :: "busid \<Rightarrow> 'd world \<Rightarrow> 'd world" where
  "tw_begin b w = w\<lparr>trace := trace w @ [BusBegin b]\<rparr>"

definition tw_beginTransmission :: "busid \<Rightarrow> u8 \<Rightarrow> 'd world \<Rightarrow> 'd world" where
  "tw_beginTransmission b a w =
     w\<lparr>buses := (buses w)(b := (buses w b)\<lparr>txAddress := a, txBuffer := []\<rparr>)\<rparr>"

definition tw_write :: "busid \<Rightarrow> u8 \<Rightarrow> 'd world \<Rightarrow> 'd world" where
  "tw_write b x w =
     w\<lparr>buses := (buses w)(b := (buses w b)\<lparr>txBuffer := txBuffer (buses w b) @ [x]\<rparr>)\<rparr>"

text \<open>\<^verbatim>\<open>send\<close> is the older name of the one-byte \<^verbatim>\<open>write\<close>.\<close>

definition tw_send :: "busid \<Rightarrow> u8 \<Rightarrow> 'd world \<Rightarrow> 'd world" where
  "tw_send b x w = tw_write b x w"

definition tw_write_buf :: "busid \<Rightarrow> u8 list \<Rightarrow> u8 \<Rightarrow> 'd world \<Rightarrow> 'd world" where
  "tw_write_buf b xs n w =
     w\<lparr>buses := (buses w)(b := (buses w b)\<lparr>txBuffer := txBuffer (buses w b) @ take (unat n) xs\<rparr>)\<rparr>"

definition tw_endTransmission :: "busid \<Rightarrow> 'd world \<Rightarrow> u8 \<times> 'd world" where
  "tw_endTransmission b w =
     (let a = txAddress (buses w b);
          bytes = txBuffer (buses w b);
          (st, d) = on_frame (hw w) b a bytes (dev w)
      in (st, w\<lparr>dev := d,
                clock := clock w + busTime (hw w) (1 + length bytes),
                buses := (buses w)(b := (buses w b)\<lparr>txBuffer := []\<rparr>),
                trace := trace w @ [Frame (clock w) b a bytes st]\<rparr>))"

definition tw_requestFrom :: "busid \<Rightarrow> u8 \<Rightarrow> u8 \<Rightarrow> 'd world \<Rightarrow> u8 \<times> 'd world" where
  "tw_requestFrom b a n w =
     (let (got, d) = on_request (hw w) b a n (dev w);
          bytes = take (unat n) got
      in (of_nat (length bytes),
          w\<lparr>dev := d,
            clock := clock w + busTime (hw w) (1 + length bytes),
            buses := (buses w)(b := (buses w b)\<lparr>rxBuffer := bytes\<rparr>),
            trace := trace w @ [Request (clock w) b a n bytes]\<rparr>))"

definition tw_read :: "busid \<Rightarrow> 'd world \<Rightarrow> int \<times> 'd world" where
  "tw_read b w =
     (case rxBuffer (buses w b) of
        [] \<Rightarrow> (- 1, w)
      | x # xs \<Rightarrow> (uint x, w\<lparr>buses := (buses w)(b := (buses w b)\<lparr>rxBuffer := xs\<rparr>)\<rparr>))"

section \<open>M5w_Unit: the shared register transport\<close>

record M5w_Unit =
  addr :: u8
  wire :: busid
  error :: u8
  endError :: u8
  lastLEDtime :: u32
  LEDdelay :: u32

text \<open>
  The constructor leaves \<^verbatim>\<open>lastLEDtime\<close> uninitialised; \<open>junk\<close> stands for whatever the
  storage holds.
\<close>

definition M5w_Unit_new :: "u8 \<Rightarrow> busid \<Rightarrow> u32 \<Rightarrow> M5w_Unit" where
  "M5w_Unit_new ad w junk =
     \<lparr>addr = ad, wire = w, error = 0, endError = 0, lastLEDtime = junk, LEDdelay = 80\<rparr>"

definition M5w_Unit_begin :: "'a M5w_Unit_scheme \<Rightarrow> 'd world \<Rightarrow> 'a M5w_Unit_scheme \<times> 'd world" where
  "M5w_Unit_begin u w =
     (let w1 = tw_begin (wire u) w;
          w2 = delay 10 w1;
          w3 = tw_beginTransmission (wire u) (addr u) w2;
          (e, w4) = tw_endTransmission (wire u) w3
      in (u\<lparr>error := e\<rparr>, w4))"

definition operator_bool :: "'a M5w_Unit_scheme \<Rightarrow> bool" where
  "operator_bool u = (error u = 0)"

definition addDelayIfNeeded :: "'a M5w_Unit_scheme \<Rightarrow> 'd world \<Rightarrow> 'd world" where
  "addDelayIfNeeded u w =
     (let now = micros w
      in if now - lastLEDtime u < LEDdelay u
         then delayMicroseconds (LEDdelay u - (now - lastLEDtime u)) w
         else w)"

text \<open>
  The copy loop of \<^verbatim>\<open>readBytes\<close>: \<^verbatim>\<open>for (int i=0;i<n;i++) value[i] = Wire.read();\<close>.
  It pops the global \<open>Wire\<close> object, whichever bus the unit was constructed with.
\<close>

function readLoop :: "nat \<Rightarrow> nat \<Rightarrow> u8 list \<Rightarrow> 'd world \<Rightarrow> u8 list \<times> 'd world" where
  "readLoop i n val w =
     (if i < n
      then (case tw_read Wire w of (b, w') \<Rightarrow> readLoop (i + 1) n (val[i := word_of_int b]) w')
      else (val, w))"
  by pat_completeness auto
termination
  by (relation "measure (\<lambda>(i, n, val, w). n - i)") auto

declare readLoop.simps [simp del]

text \<open>
  \<open>readBytes u reg val n w\<close>: \<open>val\<close> is the content of the caller's storage (at least \<open>n\<close>
  bytes); the result is the status, the storage afterwards, the unit and the world.
\<close>

definition readBytes ::
  "'a M5w_Unit_scheme \<Rightarrow> u8 \<Rightarrow> u8 list \<Rightarrow> u8 \<Rightarrow> 'd world
     \<Rightarrow> u8 \<times> u8 list \<times> 'a M5w_Unit_scheme \<times> 'd world" where
  "readBytes u reg val n w =
     (let w1 = addDelayIfNeeded u w;
          w2 = tw_beginTransmission (wire u) (addr u) w1;
          w3 = tw_send (wire u) reg w2;
          (e, w4) = tw_endTransmission (wire u) w3
      in if 0 = e
         then (case tw_requestFrom (wire u) (addr u) n w4 of
                 (cnt, w5) \<Rightarrow>
                   if cnt \<noteq> 0
                   then (case readLoop 0 (unat n) val w5 of
                           (val', w6) \<Rightarrow> (e, val', u\<lparr>endError := e\<rparr>, w6))
                   else (10, val, u\<lparr>endError := 10\<rparr>, w5))
         else (e + 100, val, u\<lparr>endError := e + 100\<rparr>, w4))"

text \<open>
  The local \<^verbatim>\<open>ret\<close> of \<^verbatim>\<open>getByte\<close> and \<^verbatim>\<open>getLong\<close> is uninitialised; zeros stand for
  its content.
\<close>

definition getByte :: "'a M5w_Unit_scheme \<Rightarrow> u8 \<Rightarrow> 'd world \<Rightarrow> u8 \<times> 'a M5w_Unit_scheme \<times> 'd world" where
  "getByte u reg w =
     (case readBytes u reg [0] 1 w of
        (st, val, u', w') \<Rightarrow> (if 0 \<noteq> st then 0xAA else val ! 0, u', w'))"

definition getLong :: "'a M5w_Unit_scheme \<Rightarrow> u8 \<Rightarrow> 'd world \<Rightarrow> s32 \<times> 'a M5w_Unit_scheme \<times> 'd world" where
  "getLong u reg w =
     (case readBytes u reg [0, 0, 0, 0] 4 w of
        (st, val, u', w') \<Rightarrow> (if 0 \<noteq> st then 0xDEADBEEF else u32_of_bytes val, u', w'))"

definition writeBytes ::
  "'a M5w_Unit_scheme \<Rightarrow> u8 \<Rightarrow> u8 list \<Rightarrow> u8 \<Rightarrow> 'd world \<Rightarrow> 'a M5w_Unit_scheme \<times> 'd world" where
  "writeBytes u reg val n w =
     (let w1 = addDelayIfNeeded u w;
          w2 = tw_beginTransmission (wire u) (addr u) w1;
          w3 = tw_write (wire u) reg w2;
          w4 = tw_write_buf (wire u) val n w3;
          (e, w5) = tw_endTransmission (wire u) w4
      in (u\<lparr>endError := e\<rparr>, w5))"

definition getVersion :: "'a M5w_Unit_scheme \<Rightarrow> 'd world \<Rightarrow> u8 \<times> 'a M5w_Unit_scheme \<times> 'd world" where
  "getVersion u w = getByte u 0xFE w"

definition getAddress :: "'a M5w_Unit_scheme \<Rightarrow> 'd world \<Rightarrow> u8 \<times> 'a M5w_Unit_scheme \<times> 'd world" where
  "getAddress u w = getByte u 0xFF w"

definition setAddress :: "'a M5w_Unit_scheme \<Rightarrow> u8 \<Rightarrow> 'd world \<Rightarrow> 'a M5w_Unit_scheme \<times> 'd world" where
  "setAddress u newAddr w =
     (case writeBytes u 0xFF [newAddr] 1 w of (u', w') \<Rightarrow> (u'\<lparr>addr := newAddr\<rparr>, w'))"

section \<open>M5w_8angle: eight potentiometers\<close>

definition POT_COUNT :: nat where
  "POT_COUNT = 8"

definition POTMAX :: u16 where
  "POTMAX = 0xFFC"

datatype hook = unhooked | under | over | hooking

text \<open>
  The arrays \<^verbatim>\<open>potValues[POT_COUNT]\<close> and \<^verbatim>\<open>hooks[POT_COUNT]\<close> have a fixed size: they are
  functions of the index, and every access checks the index against \<open>POT_COUNT\<close>. Indexing
  with a channel outside 0..7 is undefined behaviour in the source; the model yields \<open>None\<close>
  there.
\<close>

record M5w_8angle = M5w_Unit +
  potValues :: "nat \<Rightarrow> u16"
  hooks :: "nat \<Rightarrow> hook"

definition M5w_8angle_new :: "u8 \<Rightarrow> busid \<Rightarrow> u32 \<Rightarrow> M5w_8angle" where
  "M5w_8angle_new ad w junk =
     M5w_Unit.extend (M5w_Unit_new ad w junk)
       (M5w_8angle.fields (\<lambda>i. 0) (\<lambda>i. unhooked))"

text \<open>The reversal of sense in \<^verbatim>\<open>getPot16\<close>: \<^verbatim>\<open>value = value > POTMAX?0:POTMAX-value;\<close>\<close>

definition potDecode :: "u16 \<Rightarrow> u16" where
  "potDecode raw = (if raw > POTMAX then 0 else POTMAX - raw)"

definition getPot16 :: "M5w_8angle \<Rightarrow> u8 \<Rightarrow> 'd world \<Rightarrow> (u16 \<times> M5w_8angle \<times> 'd world) option" where
  "getPot16 a ch w =
     (if unat ch < POT_COUNT
      then
        (let c = unat ch
         in case readBytes a (0x0 + ch * 2) (bytes_of_u16 (potValues a c)) 2 w of
              (st, buf, a1, w1) \<Rightarrow>
                if 0 = st
                then
                  (let val = potDecode (u16_of_bytes buf);
                       a2 = (case hooks a1 c of
                               unhooked \<Rightarrow> a1\<lparr>potValues := (potValues a1)(c := val)\<rparr>
                             | hooking \<Rightarrow>
                                 if val < potValues a1 c
                                 then a1\<lparr>hooks := (hooks a1)(c := under)\<rparr>
                                 else if val > potValues a1 c
                                 then a1\<lparr>hooks := (hooks a1)(c := over)\<rparr>
                                 else a1\<lparr>hooks := (hooks a1)(c := unhooked),
                                         potValues := (potValues a1)(c := val)\<rparr>
                             | under \<Rightarrow>
                                 if val \<ge> potValues a1 c
                                 then a1\<lparr>hooks := (hooks a1)(c := unhooked),
                                         potValues := (potValues a1)(c := val)\<rparr>
                                 else a1
                             | over \<Rightarrow>
                                 if val \<le> potValues a1 c
                                 then a1\<lparr>hooks := (hooks a1)(c := unhooked),
                                         potValues := (potValues a1)(c := val)\<rparr>
                                 else a1)
                   in Some (potValues a2 c, a2, w1))
                else Some (potValues a1 c, a1, w1))
      else None)"

definition getLast :: "M5w_8angle \<Rightarrow> u8 \<Rightarrow> u16 option" where
  "getLast a ch = (if unat ch < POT_COUNT then Some (potValues a (unat ch)) else None)"

definition setHook :: "M5w_8angle \<Rightarrow> u8 \<Rightarrow> u16 \<Rightarrow> M5w_8angle option" where
  "setHook a ch val =
     (if unat ch < POT_COUNT
      then Some (a\<lparr>hooks := (hooks a)(unat ch := hooking),
                   potValues := (potValues a)(unat ch := val)\<rparr>)
      else None)"

definition isHooking :: "M5w_8angle \<Rightarrow> u8 \<Rightarrow> bool option" where
  "isHooking a ch = (if unat ch < POT_COUNT then Some (hooks a (unat ch) \<noteq> unhooked) else None)"

definition clearHook :: "M5w_8angle \<Rightarrow> u8 \<Rightarrow> M5w_8angle option" where
  "clearHook a ch =
     (if unat ch < POT_COUNT then Some (a\<lparr>hooks := (hooks a)(unat ch := unhooked)\<rparr>) else None)"

definition angle_getSwitch :: "M5w_8angle \<Rightarrow> 'd world \<Rightarrow> u8 \<times> M5w_8angle \<times> 'd world" where
  "angle_getSwitch a w = getByte a 0x20 w"

definition angle_writeLED :: "M5w_8angle \<Rightarrow> u8 \<Rightarrow> u32 \<Rightarrow> 'd world \<Rightarrow> M5w_8angle \<times> 'd world" where
  "angle_writeLED a led colour w =
     (case writeBytes a (led * 4 + 0x30) (bytes_of_u32 colour) 4 w of
        (a', w') \<Rightarrow> (a'\<lparr>lastLEDtime := micros w'\<rparr>, w'))"

section \<open>M5w_8encoder: eight rotary encoders\<close>

record M5w_8encoder = M5w_Unit +
  encValues :: "nat \<Rightarrow> s32"

definition M5w_8encoder_new :: "u8 \<Rightarrow> busid \<Rightarrow> u32 \<Rightarrow> M5w_8encoder" where
  "M5w_8encoder_new ad w junk =
     M5w_Unit.extend (M5w_Unit_new ad w junk) (M5w_8encoder.fields (\<lambda>i. 0))"


text \<open>
  The first loop of \<^verbatim>\<open>resetCounts\<close> (its \<^verbatim>\<open>mask\<close> is \<open>msk\<close> here),
  \<^verbatim>\<open>while (0 == (mask & 1)) { mask >>= 1; reg++; }\<close>,
  does not end on a zero mask; \<open>None\<close> stands for not returning.
\<close>

partial_function (option) findStart :: "u8 \<Rightarrow> u8 \<Rightarrow> (u8 \<times> u8) option" where
  "findStart msk reg =
     (if 0 = (msk AND 1) then findStart (drop_bit 1 msk) (reg + 1) else Some (msk, reg))"

text \<open>The second loop: \<^verbatim>\<open>while (0 != mask) { chList[len] = (mask & 1) ?1:0; len++; mask >>= 1; }\<close>.\<close>

function setFlags :: "u8 \<Rightarrow> u8 list \<Rightarrow> u8 \<Rightarrow> u8 list \<times> u8" where
  "setFlags msk chList len =
     (if 0 \<noteq> msk
      then setFlags (drop_bit 1 msk)
             (chList[unat len := (if (msk AND 1) \<noteq> 0 then 1 else 0)]) (len + 1)
      else (chList, len))"
  by pat_completeness auto
termination
proof (relation "measure (\<lambda>(msk, chList, len). unat msk)")
  show "wf (measure (\<lambda>(msk, chList, len). unat msk))"
    by simp
next
  fix msk :: u8 and chList :: "u8 list" and len :: u8
  assume "0 \<noteq> msk"
  then have "unat msk \<noteq> 0"
    by (simp add: unat_eq_0)
  then have "unat msk div 2 < unat msk"
    by simp
  then have "unat (drop_bit 1 msk) < unat msk"
    by (simp add: drop_bit_eq_div unat_div)
  then show "((drop_bit 1 msk, chList[unat len := if msk AND 1 \<noteq> 0 then 1 else 0], len + 1),
              msk, chList, len) \<in> measure (\<lambda>(msk, chList, len). unat msk)"
    by simp
qed

declare setFlags.simps [simp del]

text \<open>\<^verbatim>\<open>chList\<close> is an uninitialised array of 8 bytes; zeros stand for its content.\<close>

definition resetCounts ::
  "'a M5w_Unit_scheme \<Rightarrow> u8 \<Rightarrow> 'd world \<Rightarrow> ('a M5w_Unit_scheme \<times> 'd world) option" where
  "resetCounts u msk w =
     (if 0 \<noteq> msk
      then (case findStart msk 0x40 of
              None \<Rightarrow> None
            | Some (msk1, reg) \<Rightarrow>
                (case setFlags msk1 (replicate 8 0) 0 of
                   (chList, len) \<Rightarrow> Some (writeBytes u reg chList len w)))
      else Some (u, w))"


text \<open>
  The loop of \<^verbatim>\<open>getButton\<close>:
  \<^verbatim>\<open>for (int i=7;i>=0;i--) ret = (ret << 1) | ((getByte(0x50 + ch) == 0) ?1:0);\<close>
\<close>

function buttonLoop ::
  "int \<Rightarrow> s8 \<Rightarrow> u8 \<Rightarrow> 'a M5w_Unit_scheme \<Rightarrow> 'd world \<Rightarrow> u8 \<times> 'a M5w_Unit_scheme \<times> 'd world" where
  "buttonLoop i ch ret u w =
     (if i \<ge> 0
      then (case getByte u (0x50 + ch) w of
              (b, u', w') \<Rightarrow>
                buttonLoop (i - 1) ch (push_bit 1 ret OR (if b = 0 then 1 else 0)) u' w')
      else (ret, u, w))"
  by pat_completeness auto
termination
  by (relation "measure (\<lambda>(i, ch, ret, u, w). nat (i + 1))") auto

declare buttonLoop.simps [simp del]

definition getButton :: "M5w_8encoder \<Rightarrow> s8 \<Rightarrow> 'd world \<Rightarrow> u8 \<times> M5w_8encoder \<times> 'd world" where
  "getButton e ch w =
     (if sint ch \<ge> 0
      then (case getByte e (0x50 + ch) w of
              (b, e', w') \<Rightarrow> (if b = 0 then 1 else 0, e', w'))
      else buttonLoop 7 ch 0 e w)"

definition getButtons :: "M5w_8encoder \<Rightarrow> 'd world \<Rightarrow> u8 \<times> M5w_8encoder \<times> 'd world" where
  "getButtons e w = getButton e (- 1) w"

definition encoder_writeLED :: "M5w_8encoder \<Rightarrow> u8 \<Rightarrow> u32 \<Rightarrow> 'd world \<Rightarrow> M5w_8encoder \<times> 'd world" where
  "encoder_writeLED e led colour w =
     (case writeBytes e (led * 3 + 0x70) (bytes_of_u32 colour) 3 w of
        (e', w') \<Rightarrow> (e'\<lparr>lastLEDtime := micros w'\<rparr>, w'))"


section \<open>A simulated register device\<close>

text \<open>
  The device on the other end of the bus is outside the driver. For closed examples and for
  the address round trip, a simulated device with 256 one-byte registers and an
  auto-incrementing register pointer is used: a frame whose first byte is the register
  number stores the remaining bytes from that register on, a request delivers the bytes
  from the register pointer on. It answers on one bus to the address held in its register
  0xFF and to no other; a frame to another address ends with status 2 (address not
  acknowledged), a request to another address delivers nothing.
\<close>

record simdev =
  sim_bus :: busid
  regs :: "u8 \<Rightarrow> u8"
  ptr :: u8

fun store :: "u8 \<Rightarrow> u8 list \<Rightarrow> (u8 \<Rightarrow> u8) \<Rightarrow> (u8 \<Rightarrow> u8)" where
  "store r [] f = f"
| "store r (x # xs) f = store (r + 1) xs (f(r := x))"

definition sim_frame :: "busid \<Rightarrow> u8 \<Rightarrow> u8 list \<Rightarrow> simdev \<Rightarrow> u8 \<times> simdev" where
  "sim_frame b a bytes d =
     (if b = sim_bus d \<and> a = regs d 0xFF
      then (case bytes of
              [] \<Rightarrow> (0, d)
            | r # data \<Rightarrow> (0, d\<lparr>regs := store r data (regs d), ptr := r\<rparr>))
      else (2, d))"

definition sim_request :: "busid \<Rightarrow> u8 \<Rightarrow> u8 \<Rightarrow> simdev \<Rightarrow> u8 list \<times> simdev" where
  "sim_request b a n d =
     (if b = sim_bus d \<and> a = regs d 0xFF
      then (map (\<lambda>k. regs d (ptr d + of_nat k)) [0..<unat n], d)
      else ([], d))"

definition sim_hw :: "simdev hardware" where
  "sim_hw = \<lparr>on_frame = sim_frame, on_request = sim_request, busTime = (\<lambda>k. 90 * k)\<rparr>"

definition idle_bus :: twowire where
  "idle_bus = \<lparr>txAddress = 0, txBuffer = [], rxBuffer = []\<rparr>"

definition sim_world :: "u8 \<Rightarrow> (u8 \<Rightarrow> u8) \<Rightarrow> nat \<Rightarrow> simdev world" where
  "sim_world a rs t =
     \<lparr>hw = sim_hw,
      dev = \<lparr>sim_bus = Wire, regs = rs(0xFF := a), ptr = 0\<rparr>,
      clock = t,
      buses = (\<lambda>b. idle_bus),
      trace = []\<rparr>"

text \<open>The same device attached to bus object \<open>b\<close>.\<close>

definition sim_world_on :: "busid \<Rightarrow> u8 \<Rightarrow> (u8 \<Rightarrow> u8) \<Rightarrow> nat \<Rightarrow> simdev world" where
  "sim_world_on b a rs t =
     \<lparr>hw = sim_hw,
      dev = \<lparr>sim_bus = b, regs = rs(0xFF := a), ptr = 0\<rparr>,
      clock = t,
      buses = (\<lambda>b. idle_bus),
      trace = []\<rparr>"

text \<open>
  A stub target that ends every frame with one fixed status and delivers one fixed byte
  sequence to every request.
\<close>

definition stub_hw :: "u8 \<Rightarrow> u8 list \<Rightarrow> unit hardware" where
  "stub_hw st bytes =
     \<lparr>on_frame = (\<lambda>b a bs d. (st, d)), on_request = (\<lambda>b a n d. (bytes, d)),
      busTime = (\<lambda>k. 90 * k)\<rparr>"

definition stub_world :: "u8 \<Rightarrow> u8 list \<Rightarrow> nat \<Rightarrow> unit world" where
  "stub_world st bytes t =
     \<lparr>hw = stub_hw st bytes, dev = (), clock = t, buses = (\<lambda>b. idle_bus), trace = []\<rparr>"

section \<open>What the attached hardware answers\<close>

text \<open>
  \<open>addressStatus u reg w\<close> is the status with which the register-address frame of unit \<open>u\<close>
  for register \<open>reg\<close> ends in world \<open>w\<close>; \<open>delivered u reg n w\<close> are the bytes the target
  then delivers to a request for \<open>n\<close> bytes (none when it refuses).
\<close>

definition addressStatus :: "'a M5w_Unit_scheme \<Rightarrow> u8 \<Rightarrow> 'd world \<Rightarrow> u8" where
  "addressStatus u reg w = fst (on_frame (hw w) (wire u) (addr u) [reg] (dev w))"

definition delivered :: "'a M5w_Unit_scheme \<Rightarrow> u8 \<Rightarrow> u8 \<Rightarrow> 'd world \<Rightarrow> u8 list" where
  "delivered u reg n w =
     take (unat n) (fst (on_request (hw w) (wire u) (addr u) n
        (snd (on_frame (hw w) (wire u) (addr u) [reg] (dev w)))))"

text \<open>
  \<open>potRaw a ch w\<close> is the raw two-byte value that the read made by \<open>getPot16 a ch w\<close>
  obtains, \<open>None\<close> when that read fails; \<open>potRead\<close> is the same value after the reversal
  of sense.
\<close>

definition potRaw :: "M5w_8angle \<Rightarrow> u8 \<Rightarrow> 'd world \<Rightarrow> u16 option" where
  "potRaw a ch w =
     (case readBytes a (0x0 + ch * 2) (bytes_of_u16 (potValues a (unat ch))) 2 w of
        (st, buf, a1, w1) \<Rightarrow> if st = 0 then Some (u16_of_bytes buf) else None)"

definition potRead :: "M5w_8angle \<Rightarrow> u8 \<Rightarrow> 'd world \<Rightarrow> u16 option" where
  "potRead a ch w = map_option potDecode (potRaw a ch w)"

text \<open>
  The hook filter as the specification tabulates it: for a hook state, a new value \<open>v\<close>
  and the stored value \<open>s\<close>, whether the stored value is replaced, and the next state.
\<close>

fun accepts :: "hook \<Rightarrow> u16 \<Rightarrow> u16 \<Rightarrow> bool" where
  "accepts unhooked v s = True"
| "accepts hooking v s = (v = s)"
| "accepts under v s = (v \<ge> s)"
| "accepts over v s = (v \<le> s)"

fun nextHook :: "hook \<Rightarrow> u16 \<Rightarrow> u16 \<Rightarrow> hook" where
  "nextHook unhooked v s = unhooked"
| "nextHook hooking v s = (if v < s then under else if v > s then over else unhooked)"
| "nextHook under v s = (if v \<ge> s then unhooked else under)"
| "nextHook over v s = (if v \<le> s then unhooked else over)"

text \<open>\<open>newEvents w w'\<close>: the events recorded between world \<open>w\<close> and a later world \<open>w'\<close>.\<close>

definition newEvents :: "'d world \<Rightarrow> 'd world \<Rightarrow> event list" where
  "newEvents w w' = drop (length (trace w)) (trace w')"

text \<open>
  \<open>writeStatus u reg bytes w\<close> is the status with which the frame that writes \<open>bytes\<close> to
  register \<open>reg\<close> of unit \<open>u\<close> ends in world \<open>w\<close>.
\<close>

definition writeStatus :: "'a M5w_Unit_scheme \<Rightarrow> u8 \<Rightarrow> u8 list \<Rightarrow> 'd world \<Rightarrow> u8" where
  "writeStatus u reg bytes w = fst (on_frame (hw w) (wire u) (addr u) (reg # bytes) (dev w))"


text \<open>
  The reset protocol in the words of the specification: the bits of the mask, the lowest
  bit position that is set (the number of trailing zero bits), the highest one, and one
  byte for each position from the lowest through the highest, 1 where the bit is set.
\<close>

definition bits8 :: "u8 \<Rightarrow> bool list" where
  "bits8 m = map (bit m) [0..<8]"

definition lowestSet :: "u8 \<Rightarrow> nat" where
  "lowestSet m = length (takeWhile Not (bits8 m))"

definition highestSet :: "u8 \<Rightarrow> nat" where
  "highestSet m = 7 - length (takeWhile Not (rev (bits8 m)))"

definition flag :: "u8 \<Rightarrow> nat \<Rightarrow> u8" where
  "flag m i = (if bit m i then 1 else 0)"

definition resetPayload :: "u8 \<Rightarrow> u8 list" where
  "resetPayload m = map (flag m) [lowestSet m..<Suc (highestSet m)]"

text \<open>The bus transactions among the recorded events.\<close>

fun isTransaction :: "event \<Rightarrow> bool" where
  "isTransaction (Frame t b a bytes st) = True"
| "isTransaction (Request t b a n bytes) = True"
| "isTransaction (BusBegin b) = False"
| "isTransaction (DelayMs ms) = False"
| "isTransaction (DelayUs us) = False"

text \<open>
  \<open>listening u w\<close>: the world is the simulated device on the default bus object, and the
  device answers to the address unit \<open>u\<close> holds.
\<close>

definition listening :: "'a M5w_Unit_scheme \<Rightarrow> simdev world \<Rightarrow> bool" where
  "listening u w \<longleftrightarrow>
     hw w = sim_hw \<and> wire u = Wire \<and> sim_bus (dev w) = Wire \<and> addr u = regs (dev w) 0xFF"

section \<open>The transport: reading a register\<close>

lemma addDelay_keeps:
  "hw (addDelayIfNeeded u w) = hw w"
  "dev (addDelayIfNeeded u w) = dev w"
  "buses (addDelayIfNeeded u w) = buses w"
  by (simp_all add: addDelayIfNeeded_def delayMicroseconds_def Let_def)

lemma tw_read_keeps:
  "hw (snd (tw_read b w)) = hw w"
  "dev (snd (tw_read b w)) = dev w"
  "clock (snd (tw_read b w)) = clock w"
  "trace (snd (tw_read b w)) = trace w"
  by (simp_all add: tw_read_def split: list.split)

lemma readLoop_keeps:
  "hw (snd (readLoop i n val w)) = hw w \<and> dev (snd (readLoop i n val w)) = dev w \<and>
   clock (snd (readLoop i n val w)) = clock w \<and> trace (snd (readLoop i n val w)) = trace w"
proof (induction i n val w rule: readLoop.induct)
  case (1 i n val w)
  show ?case
  proof (cases "i < n")
    case True
    obtain b w' where r: "tw_read Wire w = (b, w')"
      by (cases "tw_read Wire w")
    from "1.IH" [OF True r [symmetric]] tw_read_keeps [of Wire w] r True show ?thesis
      by (simp add: readLoop.simps [of i n val w])
  next
    case False
    then show ?thesis
      by (simp add: readLoop.simps [of i n val w])
  qed
qed

lemma readLoop_val:
  "i \<le> n \<Longrightarrow> n \<le> length val \<Longrightarrow> n - i \<le> length (rxBuffer (buses w Wire)) \<Longrightarrow>
   fst (readLoop i n val w) = take i val @ take (n - i) (rxBuffer (buses w Wire)) @ drop n val"
proof (induction i n val w rule: readLoop.induct)
  case (1 i n val w)
  show ?case
  proof (cases "i < n")
    case True
    with "1.prems" obtain x xs where rx: "rxBuffer (buses w Wire) = x # xs"
      by (cases "rxBuffer (buses w Wire)") auto
    define w' where "w' = w\<lparr>buses := (buses w)(Wire := (buses w Wire)\<lparr>rxBuffer := xs\<rparr>)\<rparr>"
    have r: "tw_read Wire w = (uint x, w')"
      by (simp add: tw_read_def rx w'_def)
    have rx': "rxBuffer (buses w' Wire) = xs"
      by (simp add: w'_def)
    have "fst (readLoop (i + 1) n (val[i := word_of_int (uint x)]) w') =
          take (i + 1) (val[i := word_of_int (uint x)]) @ take (n - (i + 1)) xs
            @ drop n (val[i := word_of_int (uint x)])"
      using "1.IH" [OF True r [symmetric]] "1.prems" True rx rx' by simp
    moreover have "take (i + 1) (val[i := x]) = take i val @ [x]"
      using True "1.prems" by (simp add: take_Suc_conv_app_nth)
    moreover have "drop n (val[i := x]) = drop n val"
      using True by simp
    moreover have "take (n - i) (x # xs) = x # take (n - (i + 1)) xs"
    proof -
      have "n - i = Suc (n - (i + 1))"
        using True by simp
      then show ?thesis
        by simp
    qed
    ultimately show ?thesis
      using True r rx by (simp add: readLoop.simps [of i n val w])
  next
    case False
    with "1.prems" show ?thesis
      by (simp add: readLoop.simps)
  qed
qed

lemma count_eq_0:
  fixes n :: u8
  shows "(of_nat (min (length xs) (unat n)) :: u8) = 0 \<longleftrightarrow> unat n = 0 \<or> xs = []"
proof -
  have "min (length xs) (unat n) \<le> unat n"
    by simp
  moreover have "unat n < 256"
    using unsigned_less [of n] by simp
  ultimately have "min (length xs) (unat n) < 256"
    by simp
  then have "unat (of_nat (min (length xs) (unat n)) :: u8) = min (length xs) (unat n)"
    by (simp add: unat_of_nat)
  moreover have "min (length xs) (unat n) = 0 \<longleftrightarrow> unat n = 0 \<or> xs = []"
    by (auto simp: min_def)
  ultimately show ?thesis
    by (metis unat_eq_0)
qed

lemma address_frame:
  assumes "tw_endTransmission b (tw_send b reg (tw_beginTransmission b a w)) = (e, w')"
  shows "e = fst (on_frame (hw w) b a [reg] (dev w))"
    and "hw w' = hw w"
    and "dev w' = snd (on_frame (hw w) b a [reg] (dev w))"
    and "clock w' = clock w + busTime (hw w) 2"
    and "trace w' = trace w @ [Frame (clock w) b a [reg] e]"
  using assms
  by (auto simp: tw_endTransmission_def tw_send_def tw_write_def tw_beginTransmission_def
      Let_def numeral_2_eq_2 split: prod.splits)

lemma data_request:
  assumes "tw_requestFrom b a n w = (cnt, w')"
  shows "cnt = 0 \<longleftrightarrow> take (unat n) (fst (on_request (hw w) b a n (dev w))) = []"
    and "hw w' = hw w"
    and "rxBuffer (buses w' b) = take (unat n) (fst (on_request (hw w) b a n (dev w)))"
    and "trace w' = trace w
           @ [Request (clock w) b a n (take (unat n) (fst (on_request (hw w) b a n (dev w))))]"
  using assms
  by (auto simp: tw_requestFrom_def count_eq_0 Let_def split: prod.splits)

lemma readBytes_cases:
  obtains
    (transport) w4 where "addressStatus u reg w \<noteq> 0"
      "readBytes u reg val n w =
         (addressStatus u reg w + 100, val, u\<lparr>endError := addressStatus u reg w + 100\<rparr>, w4)"
      "trace w4 = trace (addDelayIfNeeded u w)
         @ [Frame (clock (addDelayIfNeeded u w)) (wire u) (addr u) [reg] (addressStatus u reg w)]"
  | (nodata) w5 where "addressStatus u reg w = 0" "delivered u reg n w = []"
      "readBytes u reg val n w = (10, val, u\<lparr>endError := 10\<rparr>, w5)"
      "trace w5 = trace (addDelayIfNeeded u w)
         @ [Frame (clock (addDelayIfNeeded u w)) (wire u) (addr u) [reg] 0,
            Request (clock (addDelayIfNeeded u w) + busTime (hw w) 2) (wire u) (addr u) n []]"
  | (ok) w5 where "addressStatus u reg w = 0" "delivered u reg n w \<noteq> []"
      "readBytes u reg val n w =
         (0, fst (readLoop 0 (unat n) val w5), u\<lparr>endError := 0\<rparr>, snd (readLoop 0 (unat n) val w5))"
      "rxBuffer (buses w5 (wire u)) = delivered u reg n w"
      "trace w5 = trace (addDelayIfNeeded u w)
         @ [Frame (clock (addDelayIfNeeded u w)) (wire u) (addr u) [reg] 0,
            Request (clock (addDelayIfNeeded u w) + busTime (hw w) 2) (wire u) (addr u) n
              (delivered u reg n w)]"
proof -
  define w1 where "w1 = addDelayIfNeeded u w"
  define w3 where "w3 = tw_send (wire u) reg (tw_beginTransmission (wire u) (addr u) w1)"
  obtain e w4 where e: "tw_endTransmission (wire u) w3 = (e, w4)"
    by (cases "tw_endTransmission (wire u) w3")
  note f = address_frame [OF e [unfolded w3_def]]
  have e_eq: "e = addressStatus u reg w"
    using f(1) by (simp add: addressStatus_def w1_def addDelay_keeps)
  have tr4: "trace w4 = trace w1 @ [Frame (clock w1) (wire u) (addr u) [reg] e]"
    using f(5) .
  show thesis
  proof (cases "e = 0")
    case False
    have "readBytes u reg val n w = (e + 100, val, u\<lparr>endError := e + 100\<rparr>, w4)"
      using e False by (simp add: readBytes_def w3_def w1_def Let_def)
    with False e_eq tr4 show thesis
      by (intro transport [of w4]) (simp_all add: w1_def)
  next
    case True
    obtain cnt w5 where r: "tw_requestFrom (wire u) (addr u) n w4 = (cnt, w5)"
      by (cases "tw_requestFrom (wire u) (addr u) n w4")
    note g = data_request [OF r]
    have del: "take (unat n) (fst (on_request (hw w4) (wire u) (addr u) n (dev w4))) =
               delivered u reg n w"
      using f(2,3) by (simp add: delivered_def w1_def addDelay_keeps)
    have tr5: "trace w5 = trace w1
         @ [Frame (clock w1) (wire u) (addr u) [reg] 0,
            Request (clock w1 + busTime (hw w) 2) (wire u) (addr u) n (delivered u reg n w)]"
      using g(4) tr4 True f(4) del by (simp add: w1_def addDelay_keeps)
    show thesis
    proof (cases "cnt = 0")
      case c0: True
      have "readBytes u reg val n w = (10, val, u\<lparr>endError := 10\<rparr>, w5)"
        using e r True c0 by (simp add: readBytes_def w3_def w1_def Let_def)
      moreover have "delivered u reg n w = []"
        using g(1) c0 del by simp
      ultimately show thesis
        using True e_eq tr5 by (intro nodata [of w5]) (simp_all add: w1_def)
    next
      case c1: False
      have "readBytes u reg val n w =
              (0, fst (readLoop 0 (unat n) val w5), u\<lparr>endError := 0\<rparr>,
               snd (readLoop 0 (unat n) val w5))"
        using e r True c1 by (simp add: readBytes_def w3_def w1_def Let_def split: prod.split)
      moreover have "delivered u reg n w \<noteq> []"
        using g(1) c1 del by simp
      moreover have "rxBuffer (buses w5 (wire u)) = delivered u reg n w"
        using g(3) del by simp
      ultimately show thesis
        using True e_eq tr5 by (intro ok [of w5]) (simp_all add: w1_def)
    qed
  qed
qed

lemma readBytes_status:
  "fst (readBytes u reg val n w) =
     (if addressStatus u reg w \<noteq> 0 then addressStatus u reg w + 100
      else if delivered u reg n w = [] then 10 else 0)"
  by (rule readBytes_cases [where u = u and reg = reg and w = w and val = val and n = n]) simp_all

lemma readBytes_unit:
  "fst (snd (snd (readBytes u reg val n w))) = u\<lparr>endError := fst (readBytes u reg val n w)\<rparr>"
  by (rule readBytes_cases [where u = u and reg = reg and w = w and val = val and n = n]) simp_all

lemma readBytes_trace:
  "trace (snd (snd (snd (readBytes u reg val n w)))) =
     trace (addDelayIfNeeded u w)
     @ Frame (clock (addDelayIfNeeded u w)) (wire u) (addr u) [reg] (addressStatus u reg w)
     # (if addressStatus u reg w = 0
        then [Request (clock (addDelayIfNeeded u w) + busTime (hw w) 2) (wire u) (addr u) n
                (delivered u reg n w)]
        else [])"
  by (rule readBytes_cases [where u = u and reg = reg and w = w and val = val and n = n]) (simp_all add: readLoop_keeps)

lemma readBytes_val:
  assumes "addressStatus u reg w = 0" and "delivered u reg n w \<noteq> []"
    and "wire u = Wire" and "length (delivered u reg n w) = unat n" and "length val = unat n"
  shows "fst (snd (readBytes u reg val n w)) = delivered u reg n w"
  by (rule readBytes_cases [where u = u and reg = reg and w = w and val = val and n = n])
    (use assms in \<open>simp_all add: readLoop_val\<close>)

lemma readBytes_val_failed:
  "fst (readBytes u reg val n w) \<noteq> 0 \<Longrightarrow> fst (snd (readBytes u reg val n w)) = val"
  by (rule readBytes_cases [where u = u and reg = reg and w = w and val = val and n = n]) simp_all


lemma stub_obs:
  "addressStatus u reg (stub_world st bytes t) = st"
  "delivered u reg n (stub_world st bytes t) = take (unat n) bytes"
  by (simp_all add: addressStatus_def delivered_def stub_world_def stub_hw_def)

lemma sim_status:
  "addressStatus u reg (sim_world a rs t) = (if wire u = Wire \<and> addr u = a then 0 else 2)"
  by (simp add: addressStatus_def sim_world_def sim_hw_def sim_frame_def)

lemma sim_delivered:
  "wire u = Wire \<Longrightarrow> addr u = a \<Longrightarrow>
   delivered u reg n (sim_world a rs t) = map (\<lambda>k. (rs(0xFF := a)) (reg + of_nat k)) [0..<unat n]"
  by (simp add: delivered_def sim_world_def sim_hw_def sim_frame_def sim_request_def)

section \<open>Status codes of readBytes\<close>

text \<open>
  The status \<^verbatim>\<open>readBytes\<close> returns is 0 when the register-address frame ends with
  status 0 and the target delivers bytes to the request, 10 when the frame ends with status
  0 and the request is refused, and the raw status of the frame plus 100 when the frame
  fails. The sum is formed in the 8-bit status variable; for every raw status up to 155,
  which covers the raw range 1 to 99 of the specification, it does not wrap: the result is
  0 exactly when frame and request both succeed, and 10 exactly when the frame succeeds and
  the request is refused. When both succeed, for a unit on the default bus object whose
  caller's storage holds \<open>n\<close> bytes and whose target delivers \<open>n\<close> bytes, the storage holds
  the delivered bytes in order afterwards.
\<close>

lemma readBytes_status_codes:
  "fst (readBytes u reg val n w) =
     (if addressStatus u reg w = 0
      then (if delivered u reg n w = [] then 10 else 0)
      else addressStatus u reg w + 100)
   \<and> unat (addressStatus u reg w + 100) = (unat (addressStatus u reg w) + 100) mod 256
   \<and> (unat (addressStatus u reg w) \<le> 155 \<longrightarrow>
        (fst (readBytes u reg val n w) = 0
           \<longleftrightarrow> addressStatus u reg w = 0 \<and> delivered u reg n w \<noteq> [])
      \<and> (fst (readBytes u reg val n w) = 10
           \<longleftrightarrow> addressStatus u reg w = 0 \<and> delivered u reg n w = [])
      \<and> (addressStatus u reg w \<noteq> 0 \<longrightarrow>
           unat (fst (readBytes u reg val n w)) = unat (addressStatus u reg w) + 100))
   \<and> (addressStatus u reg w = 0 \<and> wire u = Wire \<and> n \<noteq> 0
        \<and> length (delivered u reg n w) = unat n \<and> length val = unat n \<longrightarrow>
        fst (snd (readBytes u reg val n w)) = delivered u reg n w)"
proof -
  let ?e = "addressStatus u reg w"
  have st: "fst (readBytes u reg val n w) =
     (if ?e = 0 then (if delivered u reg n w = [] then 10 else 0) else ?e + 100)"
    by (simp add: readBytes_status)
  have wrap: "unat (?e + 100) = (unat ?e + 100) mod 256"
    by (simp add: unat_word_ariths)
  have small: "unat (?e + 100) = unat ?e + 100" if "unat ?e \<le> 155"
    using that wrap by simp
  have nz: "?e + 100 \<noteq> 0" "?e + 100 \<noteq> 10" if "unat ?e \<le> 155" "?e \<noteq> 0"
  proof -
    have "unat ?e \<noteq> 0"
      using that(2) by (simp add: unat_eq_0)
    then have gt: "unat (?e + 100) > 100"
      using small [OF that(1)] by simp
    then have "unat (?e + 100) \<noteq> unat (0 :: u8)"
      by simp
    then show "?e + 100 \<noteq> 0"
      by (rule contrapos_nn) (rule arg_cong [where f = unat])
    from gt have "unat (?e + 100) \<noteq> unat (10 :: u8)"
      by simp
    then show "?e + 100 \<noteq> 10"
      by (rule contrapos_nn) (rule arg_cong [where f = unat])
  qed
  have buf: "fst (snd (readBytes u reg val n w)) = delivered u reg n w"
    if "?e = 0" "wire u = Wire" "n \<noteq> 0" "length (delivered u reg n w) = unat n"
      "length val = unat n"
  proof -
    have "unat n \<noteq> 0"
      using that(3) by (simp add: unat_eq_0)
    then have "delivered u reg n w \<noteq> []"
      using that(4) by auto
    then show ?thesis
      using that by (simp add: readBytes_val)
  qed
  show ?thesis
    using st wrap small nz buf by auto
qed

text \<open>
  A two-byte read of register 6 from the simulated device, a refused request, and an
  address frame that ends with status 2.
\<close>

lemma readBytes_status_codes_example:
  "fst (readBytes (M5w_Unit_new 0x43 Wire 0) 6 [0, 0] 2
          (sim_world 0x43 ((\<lambda>r. 0)(6 := 0x00, 7 := 0x01)) 1000)) = 0
   \<and> fst (snd (readBytes (M5w_Unit_new 0x43 Wire 0) 6 [0, 0] 2
          (sim_world 0x43 ((\<lambda>r. 0)(6 := 0x00, 7 := 0x01)) 1000))) = [0x00, 0x01]
   \<and> fst (readBytes (M5w_Unit_new 0x43 Wire 0) 6 [0, 0] 2 (stub_world 0 [] 1000)) = 10
   \<and> fst (readBytes (M5w_Unit_new 0x43 Wire 0) 6 [0, 0] 2 (stub_world 2 [] 1000)) = 102"
proof -
  let ?u = "M5w_Unit_new 0x43 Wire 0"
  let ?w = "sim_world 0x43 ((\<lambda>r. 0)(6 := 0x00, 7 := 0x01)) 1000"
  have u: "wire ?u = Wire" "addr ?u = 0x43"
    by (simp_all add: M5w_Unit_new_def)
  have a: "addressStatus ?u 6 ?w = 0"
    by (simp add: sim_status u)
  have d: "delivered ?u 6 2 ?w = [0x00, 0x01]"
    by (simp add: sim_delivered u upt_conv_Cons)
  show ?thesis
    using readBytes_status_codes [of ?u 6 "[0, 0]" 2 ?w]
      readBytes_status_codes [of ?u 6 "[0, 0]" 2 "stub_world 0 [] 1000"]
      readBytes_status_codes [of ?u 6 "[0, 0]" 2 "stub_world 2 [] 1000"]
    by (simp add: a d u stub_obs)
qed

section \<open>Sentinels of getByte and getLong\<close>

text \<open>
  Whenever the \<^verbatim>\<open>readBytes\<close> call they make returns a non-zero status,
  \<^verbatim>\<open>getByte\<close> returns 0xAA and \<^verbatim>\<open>getLong\<close> returns 0xDEADBEEF; the status itself is
  not part of what they return. On status 0, \<^verbatim>\<open>getByte\<close> returns the byte
  \<^verbatim>\<open>readBytes\<close> stored and \<^verbatim>\<open>getLong\<close> the four stored bytes, least significant
  first; for a unit on the default bus object these are the bytes the target delivered.
\<close>

lemma getByte_getLong_sentinels:
  "(fst (readBytes u reg [0] 1 w) \<noteq> 0 \<longrightarrow> fst (getByte u reg w) = 0xAA)
   \<and> (fst (readBytes u reg [0, 0, 0, 0] 4 w) \<noteq> 0 \<longrightarrow> fst (getLong u reg w) = 0xDEADBEEF)
   \<and> (fst (readBytes u reg [0] 1 w) = 0 \<longrightarrow>
        fst (getByte u reg w) = fst (snd (readBytes u reg [0] 1 w)) ! 0)
   \<and> (fst (readBytes u reg [0, 0, 0, 0] 4 w) = 0 \<longrightarrow>
        fst (getLong u reg w) = u32_of_bytes (fst (snd (readBytes u reg [0, 0, 0, 0] 4 w))))
   \<and> (wire u = Wire \<and> addressStatus u reg w = 0 \<and> delivered u reg 1 w = [b] \<longrightarrow>
        fst (getByte u reg w) = b)
   \<and> (wire u = Wire \<and> addressStatus u reg w = 0 \<and> delivered u reg 4 w = [b0, b1, b2, b3] \<longrightarrow>
        fst (getLong u reg w) = u32_of_bytes [b0, b1, b2, b3])"
proof -
  have 1: "fst (getByte u reg w) =
      (if fst (readBytes u reg [0] 1 w) \<noteq> 0 then 0xAA else fst (snd (readBytes u reg [0] 1 w)) ! 0)"
    by (simp add: getByte_def split: prod.split)
  have 4: "fst (getLong u reg w) =
      (if fst (readBytes u reg [0, 0, 0, 0] 4 w) \<noteq> 0 then 0xDEADBEEF
       else u32_of_bytes (fst (snd (readBytes u reg [0, 0, 0, 0] 4 w))))"
    by (simp add: getLong_def split: prod.split)
  have b1: "fst (getByte u reg w) = b"
    if "wire u = Wire" "addressStatus u reg w = 0" "delivered u reg 1 w = [b]"
    using that 1 readBytes_val [of u reg w 1 "[0]"] by (simp add: readBytes_status)
  have b4: "fst (getLong u reg w) = u32_of_bytes [b0, b1, b2, b3]"
    if "wire u = Wire" "addressStatus u reg w = 0" "delivered u reg 4 w = [b0, b1, b2, b3]"
    using that 4 readBytes_val [of u reg w 4 "[0, 0, 0, 0]"] by (simp add: readBytes_status)
  show ?thesis
    using 1 4 b1 b4 by simp
qed

text \<open>
  On the simulated device at address 0x41, attached to the default bus object: a unit that
  addresses 0x43 gets the sentinels, a unit that addresses 0x41 gets the register contents.
\<close>

lemma getByte_getLong_sentinels_example:
  "fst (getByte (M5w_Unit_new 0x43 Wire 0) 0x60
          (sim_world 0x41 ((\<lambda>r. 0)(0x60 := 1)) 1000)) = 0xAA
   \<and> fst (getLong (M5w_Unit_new 0x43 Wire 0) 0x04
          (sim_world 0x41 ((\<lambda>r. 0)(4 := 0x78, 5 := 0x56, 6 := 0x34, 7 := 0x12)) 1000)) = 0xDEADBEEF
   \<and> fst (getByte (M5w_Unit_new 0x41 Wire 0) 0x60
          (sim_world 0x41 ((\<lambda>r. 0)(0x60 := 1)) 1000)) = 1
   \<and> fst (getLong (M5w_Unit_new 0x41 Wire 0) 0x04
          (sim_world 0x41 ((\<lambda>r. 0)(4 := 0x78, 5 := 0x56, 6 := 0x34, 7 := 0x12)) 1000)) = 0x12345678"
proof -
  let ?bad = "M5w_Unit_new 0x43 Wire 0"
  let ?u = "M5w_Unit_new 0x41 Wire 0"
  let ?w1 = "sim_world 0x41 ((\<lambda>r. 0)(0x60 := 1)) 1000"
  let ?w4 = "sim_world 0x41 ((\<lambda>r. 0)(4 := 0x78, 5 := 0x56, 6 := 0x34, 7 := 0x12)) 1000"
  have u: "wire ?u = Wire" "addr ?u = 0x41" "wire ?bad = Wire" "addr ?bad = 0x43"
    by (simp_all add: M5w_Unit_new_def)
  have bad: "fst (readBytes ?bad 0x60 [0] 1 ?w1) \<noteq> 0"
    "fst (readBytes ?bad 0x04 [0, 0, 0, 0] 4 ?w4) \<noteq> 0"
    by (simp_all add: readBytes_status sim_status u)
  have good: "addressStatus ?u 0x60 ?w1 = 0" "addressStatus ?u 0x04 ?w4 = 0"
    by (simp_all add: sim_status u)
  have d1: "delivered ?u 0x60 1 ?w1 = [1]"
    by (simp add: sim_delivered u)
  have d4: "delivered ?u 0x04 4 ?w4 = [0x78, 0x56, 0x34, 0x12]"
    by (simp add: sim_delivered u upt_conv_Cons)
  have v: "u32_of_bytes [0x78, 0x56, 0x34, 0x12] = 0x12345678"
    by (simp add: u32_of_bytes_def)
  show ?thesis
    using getByte_getLong_sentinels [where u = "?bad" and reg = "0x60" and w = "?w1"]
      getByte_getLong_sentinels [where u = "?bad" and reg = "0x04" and w = "?w4"]
      getByte_getLong_sentinels [where u = "?u" and reg = "0x60" and w = "?w1" and b = 1]
      getByte_getLong_sentinels [where u = "?u" and reg = "0x04" and w = "?w4"
        and ?b0.0 = "0x78" and ?b1.0 = "0x56" and ?b2.0 = "0x34" and ?b3.0 = "0x12"]
    by (simp add: bad good d1 d4 u v)
qed

section \<open>What getPot16 computes\<close>

lemma getPot16_eq:
  assumes "unat ch < POT_COUNT"
  shows "getPot16 a ch w =
    Some (let c = unat ch;
              rb = readBytes a (0x0 + ch * 2) (bytes_of_u16 (potValues a c)) 2 w;
              a1 = a\<lparr>endError := fst rb\<rparr>;
              w1 = snd (snd (snd rb))
          in case potRead a ch w of
               None \<Rightarrow> (potValues a c, a1, w1)
             | Some v \<Rightarrow>
                 (if accepts (hooks a c) v (potValues a c) then v else potValues a c,
                  a1\<lparr>potValues := (if accepts (hooks a c) v (potValues a c)
                                     then (potValues a)(c := v) else potValues a),
                      hooks := (hooks a)(c := nextHook (hooks a c) v (potValues a c))\<rparr>,
                  w1))"
proof -
  obtain st buf a1 w1 where
    rb: "readBytes a (0x0 + ch * 2) (bytes_of_u16 (potValues a (unat ch))) 2 w = (st, buf, a1, w1)"
    by (cases "readBytes a (0x0 + ch * 2) (bytes_of_u16 (potValues a (unat ch))) 2 w") auto
  have a1: "a1 = a\<lparr>endError := st\<rparr>"
    using readBytes_unit [of a "0x0 + ch * 2" "bytes_of_u16 (potValues a (unat ch))" 2 w] rb
    by simp
  show ?thesis
  proof (cases "st = 0")
    case False
    then show ?thesis
      using assms rb a1 by (simp add: getPot16_def potRead_def potRaw_def Let_def)
  next
    case True
    then show ?thesis
      using assms rb a1
      by (cases "hooks a (unat ch)")
        (auto simp: getPot16_def potRead_def potRaw_def Let_def fun_upd_idem)
  qed
qed

lemma getPot16_returns:
  "unat ch < POT_COUNT \<Longrightarrow>
   getPot16 a ch w =
     Some (fst (the (getPot16 a ch w)), fst (snd (the (getPot16 a ch w))),
           snd (snd (the (getPot16 a ch w))))"
  by (simp add: getPot16_eq)

lemma getPot16_after:
  assumes "unat ch < POT_COUNT" and "getPot16 a ch w = Some (r, a', w')"
  shows "potValues a' =
           (case potRead a ch w of
              None \<Rightarrow> potValues a
            | Some v \<Rightarrow> if accepts (hooks a (unat ch)) v (potValues a (unat ch))
                        then (potValues a)(unat ch := v) else potValues a)"
    and "hooks a' =
           (case potRead a ch w of
              None \<Rightarrow> hooks a
            | Some v \<Rightarrow> (hooks a)(unat ch := nextHook (hooks a (unat ch)) v (potValues a (unat ch))))"
    and "r = potValues a' (unat ch)"
  using assms(2) unfolding getPot16_eq [OF assms(1)]
  by (auto simp: Let_def split: option.splits)

lemma potRaw_delivered:
  assumes "wire a = Wire" and "addressStatus a (0x0 + ch * 2) w = 0"
    and "delivered a (0x0 + ch * 2) 2 w = [lo, hi]"
  shows "potRaw a ch w = Some (u16_of_bytes [lo, hi])"
proof -
  let ?val = "bytes_of_u16 (potValues a (unat ch))"
  have "fst (readBytes a (0x0 + ch * 2) ?val 2 w) = 0"
    using assms by (simp add: readBytes_status)
  moreover have "fst (snd (readBytes a (0x0 + ch * 2) ?val 2 w)) = [lo, hi]"
    using assms readBytes_val [of a "0x0 + ch * 2" w 2 ?val] by (simp add: bytes_of_u16_def)
  ultimately show ?thesis
    by (cases "readBytes a (0x0 + ch * 2) ?val 2 w") (simp add: potRaw_def)
qed

lemma potRaw_failed:
  "potRaw a ch w = None \<longleftrightarrow>
     fst (readBytes a (0x0 + ch * 2) (bytes_of_u16 (potValues a (unat ch))) 2 w) \<noteq> 0"
  by (simp add: potRaw_def split: prod.splits)

section \<open>Potentiometer values without a hook\<close>

text \<open>
  For a channel \<open>ch\<close> in 0..7 in state unhooked, \<^verbatim>\<open>getPot16\<close> returns \<open>POTMAX - raw\<close> when
  \<open>raw \<le> POTMAX\<close> and 0 otherwise, where \<open>raw\<close> is the two-byte value its successful read
  left in the storage. For a unit on the default bus object that value is made of the two
  bytes the target delivers from register \<open>0x00 + 2 * ch\<close>, the first one least significant.
\<close>

lemma getPot16_unhooked:
  "(unat ch < POT_COUNT \<and> hooks a (unat ch) = unhooked \<and> potRaw a ch w = Some raw \<longrightarrow>
      map_option fst (getPot16 a ch w) = Some (if raw \<le> POTMAX then POTMAX - raw else 0))
   \<and> (wire a = Wire \<and> addressStatus a (0x00 + ch * 2) w = 0
        \<and> delivered a (0x00 + ch * 2) 2 w = [lo, hi] \<longrightarrow>
      potRaw a ch w = Some (ucast lo OR push_bit 8 (ucast hi)))"
proof -
  have "map_option fst (getPot16 a ch w) = Some (if raw \<le> POTMAX then POTMAX - raw else 0)"
    if "unat ch < POT_COUNT" "hooks a (unat ch) = unhooked" "potRaw a ch w = Some raw"
    using that by (auto simp: getPot16_eq potRead_def potDecode_def Let_def)
  moreover have "potRaw a ch w = Some (ucast lo OR push_bit 8 (ucast hi))"
    if "wire a = Wire" "addressStatus a (0x00 + ch * 2) w = 0"
      "delivered a (0x00 + ch * 2) 2 w = [lo, hi]"
    using potRaw_delivered [OF that] by (simp add: u16_of_bytes_def)
  ultimately show ?thesis
    by blast
qed

lemma angle_new_fields:
  "addr (M5w_8angle_new ad b junk) = ad"
  "wire (M5w_8angle_new ad b junk) = b"
  "LEDdelay (M5w_8angle_new ad b junk) = 80"
  "lastLEDtime (M5w_8angle_new ad b junk) = junk"
  "potValues (M5w_8angle_new ad b junk) = (\<lambda>i. 0)"
  "hooks (M5w_8angle_new ad b junk) = (\<lambda>i. unhooked)"
  by (simp_all add: M5w_8angle_new_def M5w_Unit_new_def M5w_Unit.extend_def
      M5w_8angle.fields_def)

lemma unit_new_fields:
  "addr (M5w_Unit_new ad b junk) = ad"
  "wire (M5w_Unit_new ad b junk) = b"
  "LEDdelay (M5w_Unit_new ad b junk) = 80"
  "lastLEDtime (M5w_Unit_new ad b junk) = junk"
  by (simp_all add: M5w_Unit_new_def)

lemma encoder_new_fields:
  "addr (M5w_8encoder_new ad b junk) = ad"
  "wire (M5w_8encoder_new ad b junk) = b"
  "LEDdelay (M5w_8encoder_new ad b junk) = 80"
  "lastLEDtime (M5w_8encoder_new ad b junk) = junk"
  by (simp_all add: M5w_8encoder_new_def M5w_Unit_new_def M5w_Unit.extend_def
      M5w_8encoder.fields_def)

text \<open>
  The angle unit at address 0x43 on the default bus object, channel 3: a raw register
  value of 0x0100 gives \<open>0x0FFC - 256 = 3836\<close>, a raw value of 0x0FFF, above \<open>POTMAX\<close>,
  gives 0.
\<close>

lemma getPot16_unhooked_example:
  "map_option fst (getPot16 (M5w_8angle_new 0x43 Wire 0) 3
      (sim_world 0x43 ((\<lambda>r. 0)(6 := 0x00, 7 := 0x01)) 1000)) = Some 3836
   \<and> map_option fst (getPot16 (M5w_8angle_new 0x43 Wire 0) 3
      (sim_world 0x43 ((\<lambda>r. 0)(6 := 0xFF, 7 := 0x0F)) 1000)) = Some 0"
proof -
  let ?a = "M5w_8angle_new 0x43 Wire 0"
  let ?w = "sim_world 0x43 ((\<lambda>r. 0)(6 := 0x00, 7 := 0x01)) 1000"
  let ?w' = "sim_world 0x43 ((\<lambda>r. 0)(6 := 0xFF, 7 := 0x0F)) 1000"
  have s: "addressStatus ?a 6 ?w = 0" "addressStatus ?a 6 ?w' = 0"
    by (simp_all add: sim_status angle_new_fields)
  have d: "delivered ?a 6 2 ?w = [0x00, 0x01]" "delivered ?a 6 2 ?w' = [0xFF, 0x0F]"
    by (simp_all add: sim_delivered angle_new_fields upt_conv_Cons)
  have raw: "potRaw ?a 3 ?w = Some 0x0100" "potRaw ?a 3 ?w' = Some 0x0FFF"
    using getPot16_unhooked [where ch = 3 and a = "?a" and w = "?w" and lo = "0x00" and hi = "0x01"]
      getPot16_unhooked [where ch = 3 and a = "?a" and w = "?w'" and lo = "0xFF" and hi = "0x0F"]
    by (simp_all add: s d angle_new_fields)
  show ?thesis
    using getPot16_unhooked [where ch = 3 and a = "?a" and w = "?w" and raw = "0x0100"]
      getPot16_unhooked [where ch = 3 and a = "?a" and w = "?w'" and raw = "0x0FFF"]
    by (simp add: raw angle_new_fields POT_COUNT_def POTMAX_def)
qed


lemma getByte_unit:
  "fst (snd (getByte u reg w)) = u\<lparr>endError := fst (readBytes u reg [0] 1 w)\<rparr>"
  using readBytes_unit [of u reg "[0]" 1 w]
  by (cases "readBytes u reg [0] 1 w") (simp add: getByte_def)

lemma writeBytes_keeps:
  "addr (fst (writeBytes u reg val n w)) = addr u"
  "wire (fst (writeBytes u reg val n w)) = wire u"
  "lastLEDtime (fst (writeBytes u reg val n w)) = lastLEDtime u"
  "LEDdelay (fst (writeBytes u reg val n w)) = LEDdelay u"
  "M5w_Unit.more (fst (writeBytes u reg val n w)) = M5w_Unit.more u"
  by (simp_all add: writeBytes_def Let_def split: prod.split)

lemma writeBytes_keeps_angle:
  "potValues (fst (writeBytes a reg val n w)) = potValues a"
  "hooks (fst (writeBytes a reg val n w)) = hooks a"
  by (simp_all add: writeBytes_def Let_def split: prod.split)

section \<open>The hook state machine\<close>

text \<open>
  C1. Let \<^verbatim>\<open>setHook(ch, s)\<close> succeed, which leaves channel \<open>ch\<close> in state hooking with
  stored value \<open>s\<close>, and let a read of the channel succeed and decode to \<open>v1\<close>. If
  \<open>v1 < s\<close> the channel is in state under afterwards and \<^verbatim>\<open>getLast\<close> still yields \<open>s\<close>;
  a later successful read (in any state of the object in which the channel's hook state
  and stored value are still those) that decodes to \<open>v2 \<ge> s\<close> stores \<open>v2\<close> and
  returns the channel to unhooked, while \<open>v2 < s\<close> leaves it under with \<open>s\<close>.
  Symmetrically for \<open>v1 > s\<close>, state over and a later \<open>v2 \<le> s\<close>. If \<open>v1 = s\<close> the channel
  is unhooked at once and \<open>v1\<close> is stored. \<^verbatim>\<open>getPot16\<close> returns a result for every channel
  in 0..7 (\<open>getPot16_returns\<close>).
\<close>

theorem hook_state_machine:
  assumes "setHook a0 ch s = Some a"
    and "potRead a ch w = Some v1" and "getPot16 a ch w = Some (r1, a1, w1)"
    and "hooks b (unat ch) = hooks a1 (unat ch)"
    and "potValues b (unat ch) = potValues a1 (unat ch)"
    and "potRead b ch wb = Some v2" and "getPot16 b ch wb = Some (r2, b', wb')"
  shows "hooks a (unat ch) = hooking \<and> getLast a ch = Some s
     \<and> (v1 < s \<longrightarrow> hooks a1 (unat ch) = under \<and> getLast a1 ch = Some s \<and> r1 = s
           \<and> (v2 \<ge> s \<longrightarrow> hooks b' (unat ch) = unhooked \<and> getLast b' ch = Some v2 \<and> r2 = v2)
           \<and> (v2 < s \<longrightarrow> hooks b' (unat ch) = under \<and> getLast b' ch = Some s \<and> r2 = s))
     \<and> (v1 > s \<longrightarrow> hooks a1 (unat ch) = over \<and> getLast a1 ch = Some s \<and> r1 = s
           \<and> (v2 \<le> s \<longrightarrow> hooks b' (unat ch) = unhooked \<and> getLast b' ch = Some v2 \<and> r2 = v2)
           \<and> (v2 > s \<longrightarrow> hooks b' (unat ch) = over \<and> getLast b' ch = Some s \<and> r2 = s))
     \<and> (v1 = s \<longrightarrow> hooks a1 (unat ch) = unhooked \<and> getLast a1 ch = Some v1 \<and> r1 = v1)"
proof -
  have ch: "unat ch < POT_COUNT"
    using assms(1) by (simp add: setHook_def split: if_splits)
  have a: "hooks a (unat ch) = hooking" "potValues a (unat ch) = s"
    using assms(1) by (auto simp: setHook_def split: if_splits)
  have 1: "hooks a1 (unat ch) = (if v1 < s then under else if v1 > s then over else unhooked)"
    "potValues a1 (unat ch) = (if v1 = s then v1 else s)"
    "r1 = potValues a1 (unat ch)"
    using getPot16_after [OF ch assms(3)] assms(2) a by simp_all
  have 2: "hooks b' (unat ch) = nextHook (hooks a1 (unat ch)) v2 (potValues a1 (unat ch))"
    "potValues b' (unat ch) =
       (if accepts (hooks a1 (unat ch)) v2 (potValues a1 (unat ch)) then v2
        else potValues a1 (unat ch))"
    "r2 = potValues b' (unat ch)"
    using getPot16_after [OF ch assms(7)] assms(4,5,6) by simp_all
  have first: "hooks a1 (unat ch) = under \<and> getLast a1 ch = Some s \<and> r1 = s" if "v1 < s"
    using that 1 ch by (simp add: getLast_def)
  have first': "hooks a1 (unat ch) = over \<and> getLast a1 ch = Some s \<and> r1 = s" if "v1 > s"
    using that 1 ch by (auto simp: getLast_def)
  have first'': "hooks a1 (unat ch) = unhooked \<and> getLast a1 ch = Some v1 \<and> r1 = v1" if "v1 = s"
    using that 1 ch by (simp add: getLast_def)
  have under1: "hooks b' (unat ch) = unhooked \<and> getLast b' ch = Some v2 \<and> r2 = v2"
    if "v1 < s" "v2 \<ge> s"
    using that 1 2 ch by (simp add: getLast_def)
  have under2: "hooks b' (unat ch) = under \<and> getLast b' ch = Some s \<and> r2 = s"
    if "v1 < s" "v2 < s"
    using that 1 2 ch by (auto simp: getLast_def)
  have over1: "hooks b' (unat ch) = unhooked \<and> getLast b' ch = Some v2 \<and> r2 = v2"
    if "v1 > s" "v2 \<le> s"
    using that 1 2 ch by (auto simp: getLast_def)
  have over2: "hooks b' (unat ch) = over \<and> getLast b' ch = Some s \<and> r2 = s"
    if "v1 > s" "v2 > s"
    using that 1 2 ch by (auto simp: getLast_def)
  have "getLast a ch = Some s"
    using a ch by (simp add: getLast_def)
  with a(1) first first' first'' under1 under2 over1 over2 show ?thesis
    by blast
qed


lemma getPot16_keeps:
  assumes "unat ch < POT_COUNT" and "getPot16 a ch w = Some (r, a', w')"
  shows "wire a' = wire a" and "addr a' = addr a"
    and "lastLEDtime a' = lastLEDtime a" and "LEDdelay a' = LEDdelay a"
  using assms(2) unfolding getPot16_eq [OF assms(1)]
  by (auto simp: Let_def split: option.splits)

lemma potRead_sim:
  assumes "wire a = Wire" and "addr a = ad"
  shows "potRead a ch (sim_world ad rs t) =
     Some (potDecode (u16_of_bytes [(rs(0xFF := ad)) (ch * 2), (rs(0xFF := ad)) (ch * 2 + 1)]))"
proof -
  define lo hi where "lo = (rs(0xFF := ad)) (ch * 2)" and "hi = (rs(0xFF := ad)) (ch * 2 + 1)"
  have st: "addressStatus a (0x0 + ch * 2) (sim_world ad rs t) = 0"
    using assms by (simp add: sim_status)
  have "delivered a (0x0 + ch * 2) 2 (sim_world ad rs t) = [lo, hi]"
    using assms unfolding lo_def hi_def by (simp add: sim_delivered upt_conv_Cons)
  from potRaw_delivered [OF assms(1) st this] show ?thesis
    unfolding lo_def hi_def by (simp add: potRead_def)
qed

lemma potRead_sim_absent:
  assumes "addr a \<noteq> ad"
  shows "potRead a ch (sim_world ad rs t) = None"
  using assms by (simp add: potRead_def potRaw_failed readBytes_status sim_status)

text \<open>
  Channel 3 pinned at 2000 on the simulated device: a read of 1000 and then one of 2500,
  a read of 2500 and then one of 1000, and a read of 2000.
\<close>

theorem hook_state_machine_witness:
  "(let a = the (setHook (M5w_8angle_new 0x43 Wire 0) 3 2000);
        a1 = fst (snd (the (getPot16 a 3 (sim_world 0x43 ((\<lambda>r. 0)(6 := 0x14, 7 := 0x0C)) 1000))));
        a2 = fst (snd (the (getPot16 a1 3 (sim_world 0x43 ((\<lambda>r. 0)(6 := 0x38, 7 := 0x06)) 5000))))
    in hooks a 3 = hooking \<and> getLast a 3 = Some 2000
       \<and> hooks a1 3 = under \<and> getLast a1 3 = Some 2000
       \<and> hooks a2 3 = unhooked \<and> getLast a2 3 = Some 2500)
   \<and> (let a = the (setHook (M5w_8angle_new 0x43 Wire 0) 3 2000);
        a1 = fst (snd (the (getPot16 a 3 (sim_world 0x43 ((\<lambda>r. 0)(6 := 0x38, 7 := 0x06)) 1000))));
        a2 = fst (snd (the (getPot16 a1 3 (sim_world 0x43 ((\<lambda>r. 0)(6 := 0x14, 7 := 0x0C)) 5000))))
    in hooks a1 3 = over \<and> getLast a1 3 = Some 2000
       \<and> hooks a2 3 = unhooked \<and> getLast a2 3 = Some 1000)
   \<and> (let a = the (setHook (M5w_8angle_new 0x43 Wire 0) 3 2000);
        a1 = fst (snd (the (getPot16 a 3 (sim_world 0x43 ((\<lambda>r. 0)(6 := 0x2C, 7 := 0x08)) 1000))))
    in hooks a1 3 = unhooked \<and> getLast a1 3 = Some 2000)"
proof -
  let ?a0 = "M5w_8angle_new 0x43 Wire 0"
  let ?lo = "(\<lambda>r. 0)(6 := 0x14, 7 := 0x0C) :: u8 \<Rightarrow> u8"
  let ?hi = "(\<lambda>r. 0)(6 := 0x38, 7 := 0x06) :: u8 \<Rightarrow> u8"
  let ?eq = "(\<lambda>r. 0)(6 := 0x2C, 7 := 0x08) :: u8 \<Rightarrow> u8"
  define a where "a = the (setHook ?a0 3 2000)"
  have ch: "unat (3 :: u8) < POT_COUNT"
    by (simp add: POT_COUNT_def)
  have set: "setHook ?a0 3 2000 = Some a"
    by (simp add: a_def setHook_def POT_COUNT_def)
  have a: "wire a = Wire" "addr a = 0x43"
    by (simp_all add: a_def setHook_def POT_COUNT_def angle_new_fields)
  have dec: "potDecode (u16_of_bytes [0x14, 0x0C]) = 1000"
    "potDecode (u16_of_bytes [0x38, 0x06]) = 2500"
    "potDecode (u16_of_bytes [0x2C, 0x08]) = 2000"
    by (simp_all add: potDecode_def u16_of_bytes_def POTMAX_def)
  have rd: "potRead x 3 (sim_world 0x43 ?lo t) = Some 1000"
    "potRead x 3 (sim_world 0x43 ?hi t) = Some 2500"
    "potRead x 3 (sim_world 0x43 ?eq t) = Some 2000"
    if "wire x = Wire" "addr x = 0x43" for x t
    using that by (simp_all add: potRead_sim dec)
  define lo1 where "lo1 = fst (snd (the (getPot16 a 3 (sim_world 0x43 ?lo 1000))))"
  define hi1 where "hi1 = fst (snd (the (getPot16 a 3 (sim_world 0x43 ?hi 1000))))"
  define eq1 where "eq1 = fst (snd (the (getPot16 a 3 (sim_world 0x43 ?eq 1000))))"
  have lo1: "getPot16 a 3 (sim_world 0x43 ?lo 1000) =
      Some (fst (the (getPot16 a 3 (sim_world 0x43 ?lo 1000))), lo1,
            snd (snd (the (getPot16 a 3 (sim_world 0x43 ?lo 1000)))))"
    unfolding lo1_def by (rule getPot16_returns [OF ch])
  have hi1: "getPot16 a 3 (sim_world 0x43 ?hi 1000) =
      Some (fst (the (getPot16 a 3 (sim_world 0x43 ?hi 1000))), hi1,
            snd (snd (the (getPot16 a 3 (sim_world 0x43 ?hi 1000)))))"
    unfolding hi1_def by (rule getPot16_returns [OF ch])
  have eq1: "getPot16 a 3 (sim_world 0x43 ?eq 1000) =
      Some (fst (the (getPot16 a 3 (sim_world 0x43 ?eq 1000))), eq1,
            snd (snd (the (getPot16 a 3 (sim_world 0x43 ?eq 1000)))))"
    unfolding eq1_def by (rule getPot16_returns [OF ch])
  have lo1a: "wire lo1 = Wire" "addr lo1 = 0x43"
    using getPot16_keeps [OF ch lo1] a by simp_all
  have hi1a: "wire hi1 = Wire" "addr hi1 = 0x43"
    using getPot16_keeps [OF ch hi1] a by simp_all
  have run1:
    "hooks a 3 = hooking \<and> getLast a 3 = Some 2000
     \<and> hooks lo1 3 = under \<and> getLast lo1 3 = Some 2000
     \<and> hooks (fst (snd (the (getPot16 lo1 3 (sim_world 0x43 ?hi 5000))))) 3 = unhooked
     \<and> getLast (fst (snd (the (getPot16 lo1 3 (sim_world 0x43 ?hi 5000))))) 3 = Some 2500"
    using hook_state_machine [OF set rd(1) [OF a] lo1 refl refl rd(2) [OF lo1a]
        getPot16_returns [OF ch]]
    by simp
  have run2:
    "hooks hi1 3 = over \<and> getLast hi1 3 = Some 2000
     \<and> hooks (fst (snd (the (getPot16 hi1 3 (sim_world 0x43 ?lo 5000))))) 3 = unhooked
     \<and> getLast (fst (snd (the (getPot16 hi1 3 (sim_world 0x43 ?lo 5000))))) 3 = Some 1000"
    using hook_state_machine [OF set rd(2) [OF a] hi1 refl refl rd(1) [OF hi1a]
        getPot16_returns [OF ch]]
    by simp
  have eq1a: "wire eq1 = Wire" "addr eq1 = 0x43"
    using getPot16_keeps [OF ch eq1] a by simp_all
  have run3: "hooks eq1 3 = unhooked \<and> getLast eq1 3 = Some 2000"
    using hook_state_machine [OF set rd(3) [OF a] eq1 refl refl rd(3) [OF eq1a]
        getPot16_returns [OF ch]]
    by simp
  show ?thesis
    using run1 run2 run3 unfolding Let_def a_def lo1_def hi1_def eq1_def by simp
qed


section \<open>What a read may store\<close>

text \<open>
  C7. A \<^verbatim>\<open>getPot16(ch)\<close> call changes \<^verbatim>\<open>potValues\<close> at most at index \<open>ch\<close>, and there
  only when its read succeeds and the hook filter accepts the decoded value \<open>v\<close>, in which
  case \<open>v\<close> is stored; a value the filter rejects is never stored. When the read fails,
  \<^verbatim>\<open>potValues\<close> and \<^verbatim>\<open>hooks\<close> are unchanged and the stored value is returned: the result
  carries no error. \<^verbatim>\<open>clearHook\<close>, \<^verbatim>\<open>getSwitch\<close> and \<^verbatim>\<open>writeLED\<close> leave \<^verbatim>\<open>potValues\<close>
  alone; \<^verbatim>\<open>setHook\<close> is the one operation that stores a value of the caller's.
\<close>

theorem potValues_filter:
  assumes "unat ch < POT_COUNT" and "getPot16 a ch w = Some (r, a', w')"
  shows "r = potValues a' (unat ch)
     \<and> (\<forall>i. i \<noteq> unat ch \<longrightarrow> potValues a' i = potValues a i)
     \<and> (potRead a ch w = None \<longleftrightarrow>
          fst (readBytes a (0x0 + ch * 2) (bytes_of_u16 (potValues a (unat ch))) 2 w) \<noteq> 0)
     \<and> (potRead a ch w = None \<longrightarrow>
          potValues a' = potValues a \<and> hooks a' = hooks a \<and> r = potValues a (unat ch))
     \<and> (\<forall>v. potRead a ch w = Some v \<longrightarrow>
          potValues a' (unat ch) =
            (if accepts (hooks a (unat ch)) v (potValues a (unat ch)) then v
             else potValues a (unat ch)))
     \<and> (\<forall>c a''. clearHook a c = Some a'' \<longrightarrow> potValues a'' = potValues a)
     \<and> potValues (fst (snd (angle_getSwitch a w))) = potValues a
     \<and> (\<forall>led colour. potValues (fst (angle_writeLED a led colour w)) = potValues a)"
proof -
  note after = getPot16_after [OF assms]
  have "\<forall>i. i \<noteq> unat ch \<longrightarrow> potValues a' i = potValues a i"
    using after(1) by (auto split: option.splits)
  moreover have "potRead a ch w = None \<longleftrightarrow>
      fst (readBytes a (0x0 + ch * 2) (bytes_of_u16 (potValues a (unat ch))) 2 w) \<noteq> 0"
    by (simp add: potRead_def potRaw_failed)
  moreover have "potValues a' = potValues a \<and> hooks a' = hooks a \<and> r = potValues a (unat ch)"
    if "potRead a ch w = None"
    using after that by simp
  moreover have "potValues a' (unat ch) =
      (if accepts (hooks a (unat ch)) v (potValues a (unat ch)) then v
       else potValues a (unat ch))" if "potRead a ch w = Some v" for v
    using after(1) that by simp
  moreover have "potValues a'' = potValues a" if "clearHook a c = Some a''" for c a''
    using that by (auto simp: clearHook_def split: if_splits)
  moreover have "potValues (fst (snd (angle_getSwitch a w))) = potValues a"
    by (simp add: angle_getSwitch_def getByte_unit)
  moreover have "potValues (fst (angle_writeLED a led colour w)) = potValues a" for led colour
  proof -
    obtain a1 w1 where wb: "writeBytes a (led * 4 + 0x30) (bytes_of_u32 colour) 4 w = (a1, w1)"
      by (cases "writeBytes a (led * 4 + 0x30) (bytes_of_u32 colour) 4 w")
    have "potValues a1 = potValues a"
      using writeBytes_keeps_angle(1) [of a "led * 4 + 0x30" "bytes_of_u32 colour" 4 w] wb
      by simp
    then show ?thesis
      by (simp add: angle_writeLED_def wb)
  qed
  ultimately show ?thesis
    using after(3) by blast
qed


text \<open>
  Channel 3 pinned at 2000: a failed read, a rejected value and an accepted one; and a
  read on an unhooked channel, which tracks the device.
\<close>

theorem potValues_filter_witness:
  "(let a = the (setHook (M5w_8angle_new 0x43 Wire 0) 3 2000);
        failed = the (getPot16 a 3 (sim_world 0x41 ((\<lambda>r. 0)(6 := 0x14, 7 := 0x0C)) 1000));
        rejected = the (getPot16 a 3 (sim_world 0x43 ((\<lambda>r. 0)(6 := 0x14, 7 := 0x0C)) 1000));
        accepted = the (getPot16 a 3 (sim_world 0x43 ((\<lambda>r. 0)(6 := 0x2C, 7 := 0x08)) 1000))
    in fst failed = 2000 \<and> potValues (fst (snd failed)) = potValues a
       \<and> hooks (fst (snd failed)) = hooks a
       \<and> fst rejected = 2000 \<and> potValues (fst (snd rejected)) 3 = 2000
       \<and> fst accepted = 2000 \<and> potValues (fst (snd accepted)) 3 = 2000)
   \<and> (let a = M5w_8angle_new 0x43 Wire 0;
        tracked = the (getPot16 a 3 (sim_world 0x43 ((\<lambda>r. 0)(6 := 0x14, 7 := 0x0C)) 1000))
    in fst tracked = 1000 \<and> potValues (fst (snd tracked)) 3 = 1000
       \<and> potValues (fst (snd tracked)) 2 = 0)"
proof -
  let ?a0 = "M5w_8angle_new 0x43 Wire 0"
  let ?lo = "(\<lambda>r. 0)(6 := 0x14, 7 := 0x0C) :: u8 \<Rightarrow> u8"
  let ?eq = "(\<lambda>r. 0)(6 := 0x2C, 7 := 0x08) :: u8 \<Rightarrow> u8"
  define a where "a = the (setHook ?a0 3 2000)"
  have ch: "unat (3 :: u8) < POT_COUNT"
    by (simp add: POT_COUNT_def)
  have a: "wire a = Wire" "addr a = 0x43" "hooks a 3 = hooking" "potValues a 3 = 2000"
    by (simp_all add: a_def setHook_def POT_COUNT_def angle_new_fields)
  have a0: "wire ?a0 = Wire" "addr ?a0 = 0x43" "hooks ?a0 3 = unhooked" "potValues ?a0 = (\<lambda>i. 0)"
    by (simp_all add: angle_new_fields)
  have dec: "potDecode (u16_of_bytes [0x14, 0x0C]) = 1000"
    "potDecode (u16_of_bytes [0x2C, 0x08]) = 2000"
    by (simp_all add: potDecode_def u16_of_bytes_def POTMAX_def)
  have rd: "potRead a 3 (sim_world 0x41 ?lo 1000) = None"
    "potRead a 3 (sim_world 0x43 ?lo 1000) = Some 1000"
    "potRead a 3 (sim_world 0x43 ?eq 1000) = Some 2000"
    "potRead ?a0 3 (sim_world 0x43 ?lo 1000) = Some 1000"
    by (simp_all add: potRead_sim potRead_sim_absent a a0 dec)
  have failed:
    "fst (the (getPot16 a 3 (sim_world 0x41 ?lo 1000))) = 2000
     \<and> potValues (fst (snd (the (getPot16 a 3 (sim_world 0x41 ?lo 1000))))) = potValues a
     \<and> hooks (fst (snd (the (getPot16 a 3 (sim_world 0x41 ?lo 1000))))) = hooks a"
    using potValues_filter [OF ch getPot16_returns [OF ch], of a "sim_world 0x41 ?lo 1000"]
    by (simp add: rd a)
  have rejected:
    "fst (the (getPot16 a 3 (sim_world 0x43 ?lo 1000))) = 2000
     \<and> potValues (fst (snd (the (getPot16 a 3 (sim_world 0x43 ?lo 1000))))) 3 = 2000"
    using potValues_filter [OF ch getPot16_returns [OF ch], of a "sim_world 0x43 ?lo 1000"]
    by (simp add: rd a)
  have accepted:
    "fst (the (getPot16 a 3 (sim_world 0x43 ?eq 1000))) = 2000
     \<and> potValues (fst (snd (the (getPot16 a 3 (sim_world 0x43 ?eq 1000))))) 3 = 2000"
    using potValues_filter [OF ch getPot16_returns [OF ch], of a "sim_world 0x43 ?eq 1000"]
    by (simp add: rd a)
  have tracked:
    "fst (the (getPot16 ?a0 3 (sim_world 0x43 ?lo 1000))) = 1000
     \<and> potValues (fst (snd (the (getPot16 ?a0 3 (sim_world 0x43 ?lo 1000))))) 3 = 1000
     \<and> potValues (fst (snd (the (getPot16 ?a0 3 (sim_world 0x43 ?lo 1000))))) 2 = 0"
    using potValues_filter [OF ch getPot16_returns [OF ch], of ?a0 "sim_world 0x43 ?lo 1000"]
    by (simp add: rd a0)
  show ?thesis
    using failed rejected accepted tracked unfolding Let_def a_def by simp
qed

section \<open>The LED gate and register writes\<close>

lemma unat_of_nat_u32:
  "k < 2 ^ 32 \<Longrightarrow> unat (of_nat k :: u32) = k"
  by (simp add: unat_of_nat)

lemma gate_closed:
  assumes "lastLEDtime u = of_nat t0" and "clock w = t0 + dt" and "dt < unat (LEDdelay u)"
  shows "addDelayIfNeeded u w = delayMicroseconds (LEDdelay u - of_nat dt) w"
    and "unat (LEDdelay u - of_nat dt) = unat (LEDdelay u) - dt"
proof -
  have "unat (LEDdelay u) < 2 ^ 32"
    using unsigned_less [of "LEDdelay u"] by simp
  with assms(3) have dt: "unat (of_nat dt :: u32) = dt"
    by (simp add: unat_of_nat_u32)
  have el: "micros w - lastLEDtime u = of_nat dt"
    by (simp add: micros_def assms(1,2))
  have lt: "(of_nat dt :: u32) < LEDdelay u"
    using assms(3) dt by (simp add: word_less_nat_alt)
  show "addDelayIfNeeded u w = delayMicroseconds (LEDdelay u - of_nat dt) w"
    using el lt by (simp add: addDelayIfNeeded_def Let_def)
  have "(of_nat dt :: u32) \<le> LEDdelay u"
    using lt by simp
  then show "unat (LEDdelay u - of_nat dt) = unat (LEDdelay u) - dt"
    using dt by (simp add: unat_sub)
qed

lemma gate_open:
  assumes "lastLEDtime u = of_nat t0" and "clock w = t0 + dt" and "unat (LEDdelay u) \<le> dt"
    and "dt < 2 ^ 32"
  shows "addDelayIfNeeded u w = w"
proof -
  have dt: "unat (of_nat dt :: u32) = dt"
    using assms(4) by (simp add: unat_of_nat_u32)
  have el: "micros w - lastLEDtime u = of_nat dt"
    by (simp add: micros_def assms(1,2))
  have "\<not> (of_nat dt :: u32) < LEDdelay u"
    using assms(3) dt by (simp add: word_less_nat_alt)
  then show ?thesis
    using el by (simp add: addDelayIfNeeded_def Let_def)
qed

lemma write_frame:
  assumes "tw_endTransmission b (tw_write_buf b val n (tw_write b reg (tw_beginTransmission b a w)))
             = (e, w')"
  shows "e = fst (on_frame (hw w) b a (reg # take (unat n) val) (dev w))"
    and "hw w' = hw w"
    and "dev w' = snd (on_frame (hw w) b a (reg # take (unat n) val) (dev w))"
    and "clock w' = clock w + busTime (hw w) (2 + length (take (unat n) val))"
    and "trace w' = trace w @ [Frame (clock w) b a (reg # take (unat n) val) e]"
  using assms
  by (auto simp: tw_endTransmission_def tw_write_buf_def tw_write_def tw_beginTransmission_def
      Let_def split: prod.splits)

lemma writeBytes_eq:
  "fst (writeBytes u reg val n w) = u\<lparr>endError := writeStatus u reg (take (unat n) val) w\<rparr>"
  "trace (snd (writeBytes u reg val n w)) =
     trace (addDelayIfNeeded u w)
     @ [Frame (clock (addDelayIfNeeded u w)) (wire u) (addr u) (reg # take (unat n) val)
          (writeStatus u reg (take (unat n) val) w)]"
  "hw (snd (writeBytes u reg val n w)) = hw w"
  "dev (snd (writeBytes u reg val n w)) =
     snd (on_frame (hw w) (wire u) (addr u) (reg # take (unat n) val) (dev w))"
  "clock (snd (writeBytes u reg val n w)) =
     clock (addDelayIfNeeded u w) + busTime (hw w) (2 + length (take (unat n) val))"
proof -
  obtain e w' where e: "tw_endTransmission (wire u) (tw_write_buf (wire u) val n
      (tw_write (wire u) reg (tw_beginTransmission (wire u) (addr u) (addDelayIfNeeded u w))))
      = (e, w')"
    by (cases "tw_endTransmission (wire u) (tw_write_buf (wire u) val n
      (tw_write (wire u) reg (tw_beginTransmission (wire u) (addr u) (addDelayIfNeeded u w))))")
  have wb: "writeBytes u reg val n w = (u\<lparr>endError := e\<rparr>, w')"
    using e by (simp add: writeBytes_def Let_def)
  note f = write_frame [OF e]
  show "fst (writeBytes u reg val n w) = u\<lparr>endError := writeStatus u reg (take (unat n) val) w\<rparr>"
    using f(1) by (simp add: wb writeStatus_def addDelay_keeps)
  show "trace (snd (writeBytes u reg val n w)) =
     trace (addDelayIfNeeded u w)
     @ [Frame (clock (addDelayIfNeeded u w)) (wire u) (addr u) (reg # take (unat n) val)
          (writeStatus u reg (take (unat n) val) w)]"
    using f(1,5) by (simp add: wb writeStatus_def addDelay_keeps)
  show "hw (snd (writeBytes u reg val n w)) = hw w"
    using f(2) by (simp add: wb addDelay_keeps)
  show "dev (snd (writeBytes u reg val n w)) =
     snd (on_frame (hw w) (wire u) (addr u) (reg # take (unat n) val) (dev w))"
    using f(3) by (simp add: wb addDelay_keeps)
  show "clock (snd (writeBytes u reg val n w)) =
     clock (addDelayIfNeeded u w) + busTime (hw w) (2 + length (take (unat n) val))"
    using f(4) by (simp add: wb addDelay_keeps)
qed

lemma gate_closed_world:
  assumes "lastLEDtime u = of_nat t0" and "clock w = t0 + dt" and "dt < unat (LEDdelay u)"
  shows "trace (addDelayIfNeeded u w) = trace w @ [DelayUs (LEDdelay u - of_nat dt)]"
    and "clock (addDelayIfNeeded u w) = t0 + unat (LEDdelay u)"
  using gate_closed [OF assms] assms(2,3) by (simp_all add: delayMicroseconds_def)


lemma readBytes_ungated:
  assumes "lastLEDtime u = of_nat t0" and "clock w = t0 + dt" and "unat (LEDdelay u) \<le> dt"
    and "dt < 2 ^ 32"
  shows "take 1 (newEvents w (snd (snd (snd (readBytes u reg val n w))))) =
     [Frame (clock w) (wire u) (addr u) [reg] (addressStatus u reg w)]"
  by (simp add: newEvents_def readBytes_trace gate_open [OF assms])

lemma getByte_world:
  "snd (snd (getByte u reg w)) = snd (snd (snd (readBytes u reg [0] 1 w)))"
  by (cases "readBytes u reg [0] 1 w") (simp add: getByte_def)




lemma setAddress_keeps_stamp:
  "lastLEDtime (fst (setAddress u newAddr w)) = lastLEDtime u"
  using writeBytes_keeps(3) [where u = u and reg = "0xFF" and val = "[newAddr]" and n = 1 and w = w]
  by (cases "writeBytes u 0xFF [newAddr] 1 w") (simp add: setAddress_def)

lemma encoder_writeLED_stamp:
  "lastLEDtime (fst (encoder_writeLED e led colour w)) = micros (snd (encoder_writeLED e led colour w))"
  by (cases "writeBytes e (led * 3 + 0x70) (bytes_of_u32 colour) 3 w")
    (simp add: encoder_writeLED_def)

lemma resetCounts_keeps_stamp:
  "resetCounts u msk w = Some r \<Longrightarrow> lastLEDtime (fst r) = lastLEDtime u"
  by (auto simp: resetCounts_def writeBytes_keeps split: if_splits option.splits prod.splits)

lemma write_after_stamp:
  assumes "lastLEDtime u = of_nat (clock w1)" and "dt < unat (LEDdelay u)"
  shows "newEvents w1 (snd (writeBytes u reg val n (elapse dt w1))) =
           [DelayUs (LEDdelay u - of_nat dt),
            Frame (clock w1 + dt + (unat (LEDdelay u) - dt)) (wire u) (addr u)
              (reg # take (unat n) val) (writeStatus u reg (take (unat n) val) w1)]"
    and "unat (LEDdelay u - of_nat dt) = unat (LEDdelay u) - dt"
proof -
  have e: "clock (elapse dt w1) = clock w1 + dt" "trace (elapse dt w1) = trace w1"
    by (simp_all add: elapse_def)
  note g = gate_closed_world [OF assms(1) e(1) assms(2)] gate_closed(2) [OF assms(1) e(1) assms(2)]
  have st: "writeStatus u reg (take (unat n) val) (elapse dt w1) =
            writeStatus u reg (take (unat n) val) w1"
    by (simp add: writeStatus_def elapse_def)
  have "trace (snd (writeBytes u reg val n (elapse dt w1))) = trace w1 @
           [DelayUs (LEDdelay u - of_nat dt),
            Frame (clock w1 + dt + (unat (LEDdelay u) - dt)) (wire u) (addr u)
              (reg # take (unat n) val) (writeStatus u reg (take (unat n) val) w1)]"
    using g assms(2) by (simp add: writeBytes_eq(2) st e)
  then show "newEvents w1 (snd (writeBytes u reg val n (elapse dt w1))) =
           [DelayUs (LEDdelay u - of_nat dt),
            Frame (clock w1 + dt + (unat (LEDdelay u) - dt)) (wire u) (addr u)
              (reg # take (unat n) val) (writeStatus u reg (take (unat n) val) w1)]"
    by (simp add: newEvents_def)
  show "unat (LEDdelay u - of_nat dt) = unat (LEDdelay u) - dt"
    by (rule g(3))
qed

lemma angle_writeLED_eq:
  "angle_writeLED a led colour w =
     ((fst (writeBytes a (led * 4 + 0x30) (bytes_of_u32 colour) 4 w))
        \<lparr>lastLEDtime := micros (snd (writeBytes a (led * 4 + 0x30) (bytes_of_u32 colour) 4 w))\<rparr>,
      snd (writeBytes a (led * 4 + 0x30) (bytes_of_u32 colour) 4 w))"
  by (cases "writeBytes a (led * 4 + 0x30) (bytes_of_u32 colour) 4 w") (simp add: angle_writeLED_def)

lemma encoder_writeLED_eq:
  "encoder_writeLED e led colour w =
     ((fst (writeBytes e (led * 3 + 0x70) (bytes_of_u32 colour) 3 w))
        \<lparr>lastLEDtime := micros (snd (writeBytes e (led * 3 + 0x70) (bytes_of_u32 colour) 3 w))\<rparr>,
      snd (writeBytes e (led * 3 + 0x70) (bytes_of_u32 colour) 3 w))"
  by (cases "writeBytes e (led * 3 + 0x70) (bytes_of_u32 colour) 3 w") (simp add: encoder_writeLED_def)

lemma angle_spacing:
  fixes w :: "'d world"
  assumes "angle_writeLED a led1 c1 w = (a1, w1)"
    and "dt < unat (LEDdelay a)"
    and "angle_writeLED a1 led2 c2 (elapse dt w1) = (a2, w2)"
  shows "newEvents w1 w2 =
           [DelayUs (LEDdelay a - of_nat dt),
            Frame (clock w1 + dt + (unat (LEDdelay a) - dt)) (wire a) (addr a)
              ((led2 * 4 + 0x30) # bytes_of_u32 c2)
              (writeStatus a1 (led2 * 4 + 0x30) (bytes_of_u32 c2) w1)]"
    and "unat (LEDdelay a - of_nat dt) = unat (LEDdelay a) - dt"
    and "lastLEDtime a1 = micros w1" and "lastLEDtime a2 = micros w2"
proof -
  have a1: "a1 = (fst (writeBytes a (led1 * 4 + 0x30) (bytes_of_u32 c1) 4 w))\<lparr>lastLEDtime := micros w1\<rparr>"
    using assms(1) by (auto simp: angle_writeLED_eq)
  have k: "lastLEDtime a1 = of_nat (clock w1)" "LEDdelay a1 = LEDdelay a" "wire a1 = wire a"
    "addr a1 = addr a"
    by (simp_all add: a1 micros_def writeBytes_keeps)
  have dt: "dt < unat (LEDdelay a1)"
    using assms(2) k by simp
  have w2: "w2 = snd (writeBytes a1 (led2 * 4 + 0x30) (bytes_of_u32 c2) 4 (elapse dt w1))"
    using assms(3) by (auto simp: angle_writeLED_eq)
  have len: "take (unat (4 :: u8)) (bytes_of_u32 c2) = bytes_of_u32 c2"
    by (simp add: bytes_of_u32_def)
  show "newEvents w1 w2 =
           [DelayUs (LEDdelay a - of_nat dt),
            Frame (clock w1 + dt + (unat (LEDdelay a) - dt)) (wire a) (addr a)
              ((led2 * 4 + 0x30) # bytes_of_u32 c2)
              (writeStatus a1 (led2 * 4 + 0x30) (bytes_of_u32 c2) w1)]"
    using write_after_stamp(1) [OF k(1) dt, of "led2 * 4 + 0x30" "bytes_of_u32 c2" 4]
    unfolding w2 len k by simp
  show "unat (LEDdelay a - of_nat dt) = unat (LEDdelay a) - dt"
    using write_after_stamp(2) [OF k(1) dt] k by simp
  show "lastLEDtime a1 = micros w1"
    by (simp add: a1)
  show "lastLEDtime a2 = micros w2"
    using assms(3) by (auto simp: angle_writeLED_eq)
qed

lemma encoder_spacing:
  fixes w :: "'d world"
  assumes "encoder_writeLED e led1 c1 w = (e1, w1)"
    and "dt < unat (LEDdelay e)"
    and "encoder_writeLED e1 led2 c2 (elapse dt w1) = (e2, w2)"
  shows "newEvents w1 w2 =
           [DelayUs (LEDdelay e - of_nat dt),
            Frame (clock w1 + dt + (unat (LEDdelay e) - dt)) (wire e) (addr e)
              ((led2 * 3 + 0x70) # take 3 (bytes_of_u32 c2))
              (writeStatus e1 (led2 * 3 + 0x70) (take 3 (bytes_of_u32 c2)) w1)]"
    and "unat (LEDdelay e - of_nat dt) = unat (LEDdelay e) - dt"
    and "lastLEDtime e1 = micros w1" and "lastLEDtime e2 = micros w2"
proof -
  have e1: "e1 = (fst (writeBytes e (led1 * 3 + 0x70) (bytes_of_u32 c1) 3 w))\<lparr>lastLEDtime := micros w1\<rparr>"
    using assms(1) by (auto simp: encoder_writeLED_eq)
  have k: "lastLEDtime e1 = of_nat (clock w1)" "LEDdelay e1 = LEDdelay e" "wire e1 = wire e"
    "addr e1 = addr e"
    by (simp_all add: e1 micros_def writeBytes_keeps)
  have dt: "dt < unat (LEDdelay e1)"
    using assms(2) k by simp
  have w2: "w2 = snd (writeBytes e1 (led2 * 3 + 0x70) (bytes_of_u32 c2) 3 (elapse dt w1))"
    using assms(3) by (auto simp: encoder_writeLED_eq)
  have len: "unat (3 :: u8) = 3"
    by simp
  show "newEvents w1 w2 =
           [DelayUs (LEDdelay e - of_nat dt),
            Frame (clock w1 + dt + (unat (LEDdelay e) - dt)) (wire e) (addr e)
              ((led2 * 3 + 0x70) # take 3 (bytes_of_u32 c2))
              (writeStatus e1 (led2 * 3 + 0x70) (take 3 (bytes_of_u32 c2)) w1)]"
    using write_after_stamp(1) [OF k(1) dt, of "led2 * 3 + 0x70" "bytes_of_u32 c2" 3]
    unfolding w2 len k by simp
  show "unat (LEDdelay e - of_nat dt) = unat (LEDdelay e) - dt"
    using write_after_stamp(2) [OF k(1) dt] k by simp
  show "lastLEDtime e1 = micros w1"
    by (simp add: e1)
  show "lastLEDtime e2 = micros w2"
    using assms(3) by (auto simp: encoder_writeLED_eq)
qed

section \<open>Spacing of LED writes\<close>

text \<open>
  C5. Let a \<^verbatim>\<open>writeLED\<close> call return, let less than \<^verbatim>\<open>LEDdelay\<close> microseconds pass,
  and let a second \<^verbatim>\<open>writeLED\<close> call be made on the same object, an angle unit (\<open>dt\<close>
  microseconds apart) or an encoder unit (\<open>de\<close> microseconds apart). The second call first
  blocks for \<^verbatim>\<open>LEDdelay\<close> less the time passed and only then dispatches its frame, of four
  colour bytes to register \<open>led * 4 + 0x30\<close> on the angle unit and of three colour bytes to
  register \<open>led * 3 + 0x70\<close> on the encoder unit. Every \<^verbatim>\<open>writeLED\<close> leaves
  \<^verbatim>\<open>lastLEDtime\<close> at the time of its return; \<^verbatim>\<open>writeBytes\<close>, \<^verbatim>\<open>readBytes\<close>,
  \<^verbatim>\<open>setAddress\<close> and \<^verbatim>\<open>resetCounts\<close> leave \<^verbatim>\<open>lastLEDtime\<close> as it is.
\<close>

theorem led_write_spacing:
  fixes w :: "'d world" and we :: "'d world"
  assumes "angle_writeLED a led1 c1 w = (a1, w1)"
    and "dt < unat (LEDdelay a)"
    and "angle_writeLED a1 led2 c2 (elapse dt w1) = (a2, w2)"
    and "encoder_writeLED e led3 c3 we = (e1, we1)"
    and "de < unat (LEDdelay e)"
    and "encoder_writeLED e1 led4 c4 (elapse de we1) = (e2, we2)"
  shows "newEvents w1 w2 =
           [DelayUs (LEDdelay a - of_nat dt),
            Frame (clock w1 + dt + (unat (LEDdelay a) - dt)) (wire a) (addr a)
              ((led2 * 4 + 0x30) # bytes_of_u32 c2)
              (writeStatus a1 (led2 * 4 + 0x30) (bytes_of_u32 c2) w1)]
     \<and> unat (LEDdelay a - of_nat dt) = unat (LEDdelay a) - dt
     \<and> lastLEDtime a1 = micros w1 \<and> lastLEDtime a2 = micros w2
     \<and> newEvents we1 we2 =
           [DelayUs (LEDdelay e - of_nat de),
            Frame (clock we1 + de + (unat (LEDdelay e) - de)) (wire e) (addr e)
              ((led4 * 3 + 0x70) # take 3 (bytes_of_u32 c4))
              (writeStatus e1 (led4 * 3 + 0x70) (take 3 (bytes_of_u32 c4)) we1)]
     \<and> unat (LEDdelay e - of_nat de) = unat (LEDdelay e) - de
     \<and> lastLEDtime e1 = micros we1 \<and> lastLEDtime e2 = micros we2
     \<and> (\<forall>(u :: M5w_8angle) reg val n (w' :: 'd world).
          lastLEDtime (fst (writeBytes u reg val n w')) = lastLEDtime u
          \<and> lastLEDtime (fst (snd (snd (readBytes u reg val n w')))) = lastLEDtime u)
     \<and> (\<forall>(u :: M5w_8angle) newAddr (w' :: 'd world).
          lastLEDtime (fst (setAddress u newAddr w')) = lastLEDtime u)
     \<and> (\<forall>(x :: M5w_8encoder) led colour msk newAddr reg val n (w' :: 'd world).
          lastLEDtime (fst (encoder_writeLED x led colour w'))
            = micros (snd (encoder_writeLED x led colour w'))
          \<and> lastLEDtime (fst (writeBytes x reg val n w')) = lastLEDtime x
          \<and> lastLEDtime (fst (snd (snd (readBytes x reg val n w')))) = lastLEDtime x
          \<and> lastLEDtime (fst (setAddress x newAddr w')) = lastLEDtime x
          \<and> (\<forall>r. resetCounts x msk w' = Some r \<longrightarrow> lastLEDtime (fst r) = lastLEDtime x))"
proof -
  note an = angle_spacing [OF assms(1-3)]
  note en = encoder_spacing [OF assms(4-6)]
  have rd: "lastLEDtime (fst (snd (snd (readBytes u reg val n w')))) = lastLEDtime u"
    for u :: "'b M5w_Unit_scheme" and reg val n and w' :: "'d world"
    by (simp add: readBytes_unit)
  show ?thesis
    using an en
    by (simp add: rd writeBytes_keeps setAddress_keeps_stamp encoder_writeLED_stamp
        resetCounts_keeps_stamp)
qed

lemma stub_writeStatus:
  "hw w = stub_hw st bytes \<Longrightarrow> writeStatus u reg val w = st"
  by (simp add: writeStatus_def stub_hw_def)

text \<open>
  Two LED writes 30 microseconds apart with the default spacing of 80, on an angle unit
  and on an encoder unit: the second one waits 50 microseconds.
\<close>

theorem led_write_spacing_witness:
  "newEvents (snd (angle_writeLED (M5w_8angle_new 0x43 Wire 0) 0 0x01020304 (stub_world 0 [] 100000)))
     (snd (angle_writeLED
             (fst (angle_writeLED (M5w_8angle_new 0x43 Wire 0) 0 0x01020304 (stub_world 0 [] 100000)))
             1 0x44332211
             (elapse 30
               (snd (angle_writeLED (M5w_8angle_new 0x43 Wire 0) 0 0x01020304
                      (stub_world 0 [] 100000)))))) =
   [DelayUs 50,
    Frame (clock (snd (angle_writeLED (M5w_8angle_new 0x43 Wire 0) 0 0x01020304
                        (stub_world 0 [] 100000))) + 30 + 50)
      Wire 0x43 [0x34, 0x11, 0x22, 0x33, 0x44] 0]
   \<and> newEvents (snd (encoder_writeLED (M5w_8encoder_new 0x41 Wire 0) 0 0x010203 (stub_world 0 [] 100000)))
     (snd (encoder_writeLED
             (fst (encoder_writeLED (M5w_8encoder_new 0x41 Wire 0) 0 0x010203 (stub_world 0 [] 100000)))
             1 0x332211
             (elapse 30
               (snd (encoder_writeLED (M5w_8encoder_new 0x41 Wire 0) 0 0x010203
                      (stub_world 0 [] 100000)))))) =
   [DelayUs 50,
    Frame (clock (snd (encoder_writeLED (M5w_8encoder_new 0x41 Wire 0) 0 0x010203
                        (stub_world 0 [] 100000))) + 30 + 50)
      Wire 0x41 [0x73, 0x11, 0x22, 0x33] 0]"
proof -
  let ?a = "M5w_8angle_new 0x43 Wire 0"
  let ?e = "M5w_8encoder_new 0x41 Wire 0"
  let ?w = "stub_world 0 [] 100000"
  define a1 where "a1 = fst (angle_writeLED ?a 0 0x01020304 ?w)"
  define w1 where "w1 = snd (angle_writeLED ?a 0 0x01020304 ?w)"
  define a2 where "a2 = fst (angle_writeLED a1 1 0x44332211 (elapse 30 w1))"
  define w2 where "w2 = snd (angle_writeLED a1 1 0x44332211 (elapse 30 w1))"
  define e1 where "e1 = fst (encoder_writeLED ?e 0 0x010203 ?w)"
  define v1 where "v1 = snd (encoder_writeLED ?e 0 0x010203 ?w)"
  define e2 where "e2 = fst (encoder_writeLED e1 1 0x332211 (elapse 30 v1))"
  define v2 where "v2 = snd (encoder_writeLED e1 1 0x332211 (elapse 30 v1))"
  have 1: "angle_writeLED ?a 0 0x01020304 ?w = (a1, w1)"
    by (simp add: a1_def w1_def)
  have 2: "angle_writeLED a1 1 0x44332211 (elapse 30 w1) = (a2, w2)"
    by (simp add: a2_def w2_def)
  have dt: "30 < unat (LEDdelay ?a)"
    by (simp add: angle_new_fields)
  have 3: "encoder_writeLED ?e 0 0x010203 ?w = (e1, v1)"
    by (simp add: e1_def v1_def)
  have 4: "encoder_writeLED e1 1 0x332211 (elapse 30 v1) = (e2, v2)"
    by (simp add: e2_def v2_def)
  have de: "30 < unat (LEDdelay ?e)"
    by (simp add: encoder_new_fields)
  have "hw w1 = stub_hw 0 []"
    by (simp add: w1_def angle_writeLED_eq writeBytes_eq(3) stub_world_def)
  then have st: "writeStatus a1 (1 * 4 + 0x30) (bytes_of_u32 0x44332211) w1 = 0"
    by (rule stub_writeStatus)
  have "hw v1 = stub_hw 0 []"
    by (simp add: v1_def encoder_writeLED_eq writeBytes_eq(3) stub_world_def)
  then have se: "writeStatus e1 (1 * 3 + 0x70) (take 3 (bytes_of_u32 0x332211)) v1 = 0"
    by (rule stub_writeStatus)
  have b: "bytes_of_u32 0x44332211 = [0x11, 0x22, 0x33, 0x44]"
    "take 3 (bytes_of_u32 0x332211) = [0x11, 0x22, 0x33]"
    by (simp_all add: bytes_of_u32_def)
  have d: "LEDdelay ?a - of_nat 30 = 50" "LEDdelay ?e - of_nat 30 = 50"
    by (simp_all add: angle_new_fields encoder_new_fields)
  show ?thesis
    using led_write_spacing [OF 1 dt 2 3 de 4] st se
    unfolding a1_def [symmetric] w1_def [symmetric] w2_def [symmetric]
      e1_def [symmetric] v1_def [symmetric] v2_def [symmetric]
    by (simp add: b d angle_new_fields encoder_new_fields)
qed







section \<open>Reads pass the LED gate\<close>



lemma getByte_delivered:
  assumes "wire u = Wire" and "addressStatus u reg w = 0" and "delivered u reg 1 w = [b]"
  shows "fst (getByte u reg w) = b"
proof -
  have "fst (readBytes u reg [0] 1 w) = 0"
    using assms by (simp add: readBytes_status)
  moreover have "fst (snd (readBytes u reg [0] 1 w)) = [b]"
    using assms readBytes_val [of u reg w 1 "[0]"] by simp
  ultimately show ?thesis
    by (cases "readBytes u reg [0] 1 w") (simp add: getByte_def)
qed

lemma getByte_failed:
  "addressStatus u reg w = 2 \<Longrightarrow> fst (getByte u reg w) = 0xAA"
  by (cases "readBytes u reg [0] 1 w") (use readBytes_status [of u reg "[0]" 1 w] in
      \<open>simp add: getByte_def\<close>)

lemma sim_gen:
  assumes "hw w = sim_hw"
  shows "addressStatus u reg w =
           (if wire u = sim_bus (dev w) \<and> addr u = regs (dev w) 0xFF then 0 else 2)"
    and "writeStatus u reg bytes w =
           (if wire u = sim_bus (dev w) \<and> addr u = regs (dev w) 0xFF then 0 else 2)"
    and "wire u = sim_bus (dev w) \<Longrightarrow> addr u = regs (dev w) 0xFF \<Longrightarrow>
         delivered u reg n w = map (\<lambda>k. regs (dev w) (reg + of_nat k)) [0..<unat n]"
    and "dev (snd (writeBytes u reg val n w)) =
           (if wire u = sim_bus (dev w) \<and> addr u = regs (dev w) 0xFF
            then (dev w)\<lparr>regs := store reg (take (unat n) val) (regs (dev w)), ptr := reg\<rparr>
            else dev w)"
  using assms
  by (simp_all add: addressStatus_def writeStatus_def delivered_def writeBytes_eq(4) sim_hw_def
      sim_frame_def sim_request_def)

lemma setAddress_eq:
  "setAddress u newAddr w =
     ((fst (writeBytes u 0xFF [newAddr] 1 w))\<lparr>addr := newAddr\<rparr>,
      snd (writeBytes u 0xFF [newAddr] 1 w))"
  by (cases "writeBytes u 0xFF [newAddr] 1 w") (simp add: setAddress_def)

section \<open>Changing the device address\<close>

text \<open>
  \<^verbatim>\<open>setAddress(newAddr)\<close> issues one frame, the bytes 0xFF and \<open>newAddr\<close>, to the address
  the unit held before the call, and afterwards holds \<open>newAddr\<close> whatever the status of that
  frame was. On the simulated device, whose register 0xFF is its bus address, a write that
  succeeds stores \<open>newAddr\<close> there and, for a unit on the default bus object, makes a
  following \<^verbatim>\<open>getAddress()\<close> return \<open>newAddr\<close>; a write that fails leaves the device as
  it was while the unit holds \<open>newAddr\<close>.
\<close>

lemma setAddress_order:
  fixes w :: "'d world" and ws :: "simdev world"
  shows "newEvents (addDelayIfNeeded u w) (snd (setAddress u newAddr w)) =
           [Frame (clock (addDelayIfNeeded u w)) (wire u) (addr u) [0xFF, newAddr]
              (writeStatus u 0xFF [newAddr] w)]
     \<and> addr (fst (setAddress u newAddr w)) = newAddr
     \<and> endError (fst (setAddress u newAddr w)) = writeStatus u 0xFF [newAddr] w
     \<and> (hw ws = sim_hw \<and> wire v = Wire \<and> writeStatus v 0xFF [newAddr] ws = 0 \<longrightarrow>
          regs (dev (snd (setAddress v newAddr ws))) 0xFF = newAddr
          \<and> fst (getAddress (fst (setAddress v newAddr ws)) (snd (setAddress v newAddr ws)))
              = newAddr)
     \<and> (hw ws = sim_hw \<and> writeStatus v 0xFF [newAddr] ws \<noteq> 0 \<longrightarrow>
          dev (snd (setAddress v newAddr ws)) = dev ws
          \<and> addr (fst (setAddress v newAddr ws)) = newAddr)"
proof -
  note sa = setAddress_eq
  have 1: "newEvents (addDelayIfNeeded u w) (snd (setAddress u newAddr w)) =
           [Frame (clock (addDelayIfNeeded u w)) (wire u) (addr u) [0xFF, newAddr]
              (writeStatus u 0xFF [newAddr] w)]"
    by (simp add: sa writeBytes_eq(2) newEvents_def)
  have 2: "addr (fst (setAddress u newAddr w)) = newAddr"
    by (simp add: sa)
  have 3: "endError (fst (setAddress u newAddr w)) = writeStatus u 0xFF [newAddr] w"
    by (simp add: sa writeBytes_eq(1))
  have 4: "regs (dev (snd (setAddress v newAddr ws))) 0xFF = newAddr
      \<and> fst (getAddress (fst (setAddress v newAddr ws)) (snd (setAddress v newAddr ws))) = newAddr"
    if h: "hw ws = sim_hw" "wire v = Wire" "writeStatus v 0xFF [newAddr] ws = 0"
  proof -
    let ?v' = "fst (setAddress v newAddr ws)" and ?w' = "snd (setAddress v newAddr ws)"
    have m: "wire v = sim_bus (dev ws) \<and> addr v = regs (dev ws) 0xFF"
      using h(3) sim_gen(2) [OF h(1), of v "0xFF" "[newAddr]"] by (simp split: if_splits)
    have hw': "hw ?w' = sim_hw"
      using h(1) by (simp add: sa writeBytes_eq(3))
    have dev': "dev ?w' = (dev ws)\<lparr>regs := (regs (dev ws))(0xFF := newAddr), ptr := 0xFF\<rparr>"
      using m sim_gen(4) [OF h(1), of v "0xFF" "[newAddr]" 1] by (simp add: sa)
    have v': "wire ?v' = Wire" "addr ?v' = newAddr"
      using h(2) by (simp_all add: sa writeBytes_keeps)
    have st: "addressStatus ?v' 0xFF ?w' = 0"
      using sim_gen(1) [OF hw', of ?v' "0xFF"] v' m h(2) by (simp add: dev')
    have dl: "delivered ?v' 0xFF 1 ?w' = [newAddr]"
      using sim_gen(3) [OF hw', of ?v' "0xFF" 1] v' m h(2) by (simp add: dev')
    have "fst (getAddress ?v' ?w') = newAddr"
      unfolding getAddress_def by (rule getByte_delivered [OF v'(1) st dl])
    then show ?thesis
      by (simp add: dev')
  qed
  have 5: "dev (snd (setAddress v newAddr ws)) = dev ws
      \<and> addr (fst (setAddress v newAddr ws)) = newAddr"
    if h: "hw ws = sim_hw" "writeStatus v 0xFF [newAddr] ws \<noteq> 0"
  proof -
    have "\<not> (wire v = sim_bus (dev ws) \<and> addr v = regs (dev ws) 0xFF)"
      using h(2) sim_gen(2) [OF h(1), of v "0xFF" "[newAddr]"] by (simp split: if_splits)
    then have "dev (snd (writeBytes v 0xFF [newAddr] 1 ws)) = dev ws"
      using sim_gen(4) [OF h(1), of v "0xFF" "[newAddr]" 1] by auto
    then show ?thesis
      by (simp add: sa)
  qed
  show ?thesis
    using 1 2 3 4 5 by blast
qed

lemma sim_world_fields:
  "hw (sim_world a rs t) = sim_hw"
  "sim_bus (dev (sim_world a rs t)) = Wire"
  "regs (dev (sim_world a rs t)) = rs(0xFF := a)"
  "clock (sim_world a rs t) = t"
  "trace (sim_world a rs t) = []"
  by (simp_all add: sim_world_def)

text \<open>
  A unit at 0x43 moved to 0x44: with the device at 0x43 the round trip yields 0x44; with
  the device at 0x41 the write fails, the unit holds 0x44 and the device stays at 0x41.
\<close>

lemma setAddress_order_example:
  "fst (getAddress (fst (setAddress (M5w_Unit_new 0x43 Wire 0) 0x44 (sim_world 0x43 (\<lambda>r. 0) 1000)))
         (snd (setAddress (M5w_Unit_new 0x43 Wire 0) 0x44 (sim_world 0x43 (\<lambda>r. 0) 1000)))) = 0x44
   \<and> regs (dev (snd (setAddress (M5w_Unit_new 0x43 Wire 0) 0x44 (sim_world 0x43 (\<lambda>r. 0) 1000))))
        0xFF = 0x44
   \<and> addr (fst (setAddress (M5w_Unit_new 0x43 Wire 0) 0x44 (sim_world 0x41 (\<lambda>r. 0) 1000))) = 0x44
   \<and> regs (dev (snd (setAddress (M5w_Unit_new 0x43 Wire 0) 0x44 (sim_world 0x41 (\<lambda>r. 0) 1000))))
        0xFF = 0x41"
proof -
  let ?v = "M5w_Unit_new 0x43 Wire 0"
  let ?ok = "sim_world 0x43 (\<lambda>r. 0) 1000" and ?absent = "sim_world 0x41 (\<lambda>r. 0) 1000"
  have ok: "writeStatus ?v 0xFF [0x44] ?ok = 0"
    by (simp add: sim_gen(2) sim_world_fields unit_new_fields)
  have absent: "writeStatus ?v 0xFF [0x44] ?absent \<noteq> 0"
    by (simp add: sim_gen(2) sim_world_fields unit_new_fields)
  show ?thesis
    using setAddress_order [where u = "?v" and w = "?ok" and v = "?v" and newAddr = "0x44"
        and ws = "?ok"]
      setAddress_order [where u = "?v" and w = "?ok" and v = "?v" and newAddr = "0x44"
        and ws = "?absent"]
    by (simp add: ok absent sim_world_fields unit_new_fields)
qed

section \<open>Resetting counters\<close>

lemma low_bit:
  fixes m :: u8
  shows "(0 = (m AND 1)) = (\<not> bit m 0)" and "((m AND 1) \<noteq> 0) = bit m 0"
  by (auto simp: and_one_eq bit_0 even_iff_mod_2_eq_zero)

lemma zero_bits:
  fixes m :: u8
  shows "(\<forall>i<8. \<not> bit m i) \<Longrightarrow> m = 0"
  by (rule bit_word_eqI) simp

lemma findStart_run:
  "bit m k \<Longrightarrow> (\<forall>i<k. \<not> bit m i) \<Longrightarrow> findStart m reg = Some (drop_bit k m, reg + of_nat k)"
proof (induction k arbitrary: m reg)
  case 0
  then show ?case
    by (subst findStart.simps) (simp add: low_bit)
next
  case (Suc k)
  have "\<not> bit m 0"
    using Suc.prems(2) by simp
  then have "findStart m reg = findStart (drop_bit 1 m) (reg + 1)"
    by (subst findStart.simps) (simp add: low_bit)
  also have "\<dots> = Some (drop_bit k (drop_bit 1 m), reg + 1 + of_nat k)"
    using Suc.prems by (intro Suc.IH) (simp_all add: bit_drop_bit_eq)
  finally show ?case
    by (simp add: ac_simps)
qed

lemma setFlags_run:
  assumes "\<forall>i\<ge>n. \<not> bit m i" and "n = 0 \<or> bit m (n - 1)"
    and "unat len + n \<le> length chList" and "length chList \<le> 255"
  shows "setFlags m chList len =
     (take (unat len) chList @ map (flag m) [0..<n] @ drop (unat len + n) chList, len + of_nat n)"
  using assms
proof (induction n arbitrary: m chList len)
  case 0
  then have "m = 0"
    by (intro zero_bits) simp
  then show ?case
    by (simp add: setFlags.simps)
next
  case (Suc k)
  let ?m = "drop_bit 1 m" and ?cl = "chList[unat len := flag m 0]"
  have nz: "m \<noteq> 0"
    using Suc.prems(2) by auto
  have len1: "unat (len + 1) = unat len + 1"
    using Suc.prems(3,4) by (simp add: unat_word_ariths)
  have step: "setFlags m chList len = setFlags ?m ?cl (len + 1)"
    using nz by (subst setFlags.simps) (simp add: low_bit flag_def)
  have "setFlags ?m ?cl (len + 1) =
     (take (unat (len + 1)) ?cl @ map (flag ?m) [0..<k] @ drop (unat (len + 1) + k) ?cl,
      len + 1 + of_nat k)"
  proof (rule Suc.IH)
    show "\<forall>i\<ge>k. \<not> bit ?m i"
      using Suc.prems(1) by (simp add: bit_drop_bit_eq)
    show "k = 0 \<or> bit ?m (k - 1)"
      using Suc.prems(2) by (cases k) (simp_all add: bit_drop_bit_eq)
    show "unat (len + 1) + k \<le> length ?cl"
      using Suc.prems(3) len1 by simp
    show "length ?cl \<le> 255"
      using Suc.prems(4) by simp
  qed
  moreover have "take (unat (len + 1)) ?cl = take (unat len) chList @ [flag m 0]"
    using Suc.prems(3) len1 by (simp add: take_Suc_conv_app_nth)
  moreover have "map (flag ?m) [0..<k] = map (flag m) [1..<Suc k]"
    by (simp add: flag_def bit_drop_bit_eq map_Suc_upt [symmetric] del: upt_Suc)
  moreover have "drop (unat (len + 1) + k) ?cl = drop (unat len + Suc k) chList"
    using len1 by simp
  moreover have "[flag m 0] @ map (flag m) [1..<Suc k] = map (flag m) [0..<Suc k]"
    by (simp add: upt_conv_Cons del: upt_Suc)
  ultimately show ?case
    using step by (simp add: ac_simps del: upt_Suc)
qed

lemma takeWhile_short:
  assumes "\<exists>x\<in>set xs. \<not> P x"
  shows "length (takeWhile P xs) < length xs"
proof (rule ccontr)
  assume "\<not> length (takeWhile P xs) < length xs"
  then have "length (takeWhile P xs) = length xs"
    using length_takeWhile_le [of P xs] by simp
  then have "takeWhile P xs = xs"
    using takeWhile_eq_take [of P xs] by simp
  then have "\<forall>x\<in>set xs. P x"
    by (simp only: takeWhile_eq_all_conv)
  with assms show False
    by blast
qed

lemma bits8_nth:
  "i < 8 \<Longrightarrow> bits8 m ! i = bit m i"
  by (simp add: bits8_def del: upt_Suc)

lemma bits8_length:
  "length (bits8 m) = 8"
  by (simp add: bits8_def)

lemma nonzero_has_bit:
  fixes m :: u8
  assumes "m \<noteq> 0"
  shows "\<exists>x\<in>set (bits8 m). \<not> Not x"
proof -
  obtain i where i: "i < 8" "bit m i"
    using assms zero_bits by blast
  then have "bits8 m ! i \<in> set (bits8 m)"
    by (intro nth_mem) (simp add: bits8_length)
  with i show ?thesis
    by (auto simp: bits8_nth)
qed

lemma lowestSet_props:
  fixes m :: u8
  assumes "m \<noteq> 0"
  shows "lowestSet m < 8" and "bit m (lowestSet m)" and "\<forall>i<lowestSet m. \<not> bit m i"
proof -
  have lt: "length (takeWhile Not (bits8 m)) < length (bits8 m)"
    using nonzero_has_bit [OF assms] by (rule takeWhile_short)
  then show l8: "lowestSet m < 8"
    by (simp add: lowestSet_def bits8_length)
  have "\<not> Not (bits8 m ! lowestSet m)"
    unfolding lowestSet_def using lt by (rule nth_length_takeWhile)
  then show "bit m (lowestSet m)"
    using l8 by (simp add: bits8_nth)
  show "\<forall>i<lowestSet m. \<not> bit m i"
  proof (intro allI impI)
    fix i
    assume i: "i < lowestSet m"
    then have "takeWhile Not (bits8 m) ! i \<in> set (takeWhile Not (bits8 m))"
      by (intro nth_mem) (simp add: lowestSet_def)
    then have "Not (takeWhile Not (bits8 m) ! i)"
      by (rule set_takeWhileD [THEN conjunct2])
    moreover have "takeWhile Not (bits8 m) ! i = bits8 m ! i"
      using i by (intro takeWhile_nth) (simp add: lowestSet_def)
    ultimately show "\<not> bit m i"
      using i l8 by (simp add: bits8_nth)
  qed
qed

lemma highestSet_props:
  fixes m :: u8
  assumes "m \<noteq> 0"
  shows "highestSet m < 8" and "bit m (highestSet m)" and "\<forall>i>highestSet m. \<not> bit m i"
proof -
  let ?r = "rev (bits8 m)" and ?k = "length (takeWhile Not (rev (bits8 m)))"
  have r: "?r ! j = bit m (7 - j)" if "j < 8" for j
    using that by (simp add: rev_nth bits8_length bits8_nth)
  have "\<exists>x\<in>set ?r. \<not> Not x"
    using nonzero_has_bit [OF assms] by simp
  then have lt: "?k < length ?r"
    by (rule takeWhile_short)
  then have k8: "?k < 8"
    by (simp add: bits8_length)
  show "highestSet m < 8"
    by (simp add: highestSet_def)
  have "\<not> Not (?r ! ?k)"
    using lt by (rule nth_length_takeWhile)
  then show "bit m (highestSet m)"
    using k8 r [of ?k] by (simp add: highestSet_def)
  show "\<forall>i>highestSet m. \<not> bit m i"
  proof (intro allI impI)
    fix i
    assume i: "highestSet m < i"
    show "\<not> bit m i"
    proof (cases "i < 8")
      case False
      then have "8 \<le> i"
        by simp
      then show ?thesis
        using bit_imp_le_length [of m i] by auto
    next
      case True
      define j where "j = 7 - i"
      have j: "j < ?k" "i = 7 - j" "j < 8"
        using i True k8 by (auto simp: j_def highestSet_def)
      then have "takeWhile Not ?r ! j \<in> set (takeWhile Not ?r)"
        by (intro nth_mem) simp
      then have "Not (takeWhile Not ?r ! j)"
        by (rule set_takeWhileD [THEN conjunct2])
      moreover have "takeWhile Not ?r ! j = ?r ! j"
        using j(1) by (intro takeWhile_nth) simp
      ultimately show ?thesis
        using r [OF j(3)] j(2) by simp
    qed
  qed
qed

lemma lowest_le_highest:
  fixes m :: u8
  assumes "m \<noteq> 0"
  shows "lowestSet m \<le> highestSet m"
  using lowestSet_props(2) [OF assms] highestSet_props(3) [OF assms]
  by (meson not_le_imp_less)

lemma resetCounts_eq:
  fixes msk :: u8
  assumes "msk \<noteq> 0"
  shows "resetCounts u msk w =
     Some (writeBytes u (0x40 + of_nat (lowestSet msk))
             (resetPayload msk @ drop (length (resetPayload msk)) (replicate 8 0))
             (of_nat (length (resetPayload msk))) w)"
    and "length (resetPayload msk) = highestSet msk - lowestSet msk + 1"
    and "length (resetPayload msk) \<le> 8"
proof -
  let ?lo = "lowestSet msk" and ?hi = "highestSet msk"
  let ?m = "drop_bit ?lo msk"
  let ?n = "?hi - ?lo + 1"
  note lo = lowestSet_props [OF assms] and hi = highestSet_props [OF assms]
    and le = lowest_le_highest [OF assms]
  show len: "length (resetPayload msk) = ?n"
    using le by (simp add: resetPayload_def Suc_diff_le)
  show "length (resetPayload msk) \<le> 8"
    using len hi(1) by simp
  have fs: "findStart msk 0x40 = Some (?m, 0x40 + of_nat ?lo)"
    using lo(2,3) by (rule findStart_run)
  have "setFlags ?m (replicate 8 0) 0 =
     (take (unat (0 :: u8)) (replicate 8 0) @ map (flag ?m) [0..<?n]
        @ drop (unat (0 :: u8) + ?n) (replicate 8 0), 0 + of_nat ?n)"
  proof (rule setFlags_run)
    show "\<forall>i\<ge>?n. \<not> bit ?m i"
      using hi(3) le by (simp add: bit_drop_bit_eq)
    show "?n = 0 \<or> bit ?m (?n - 1)"
      using hi(2) le by (simp add: bit_drop_bit_eq)
    show "unat (0 :: u8) + ?n \<le> length (replicate 8 (0 :: u8))"
      using hi(1) by simp
    show "length (replicate 8 (0 :: u8)) \<le> 255"
      by simp
  qed
  moreover have "map (flag ?m) [0..<?n] = resetPayload msk"
  proof -
    have "map (flag ?m) [0..<?n] = map (flag msk) (map (\<lambda>i. i + ?lo) [0..<?n])"
      by (simp add: flag_def bit_drop_bit_eq ac_simps del: upt_Suc)
    also have "map (\<lambda>i. i + ?lo) [0..<?n] = [?lo..<Suc ?hi]"
      using le by (simp add: map_add_upt del: upt_Suc)
    finally show ?thesis
      by (simp add: resetPayload_def)
  qed
  ultimately have sf: "setFlags ?m (replicate 8 0) 0 =
     (resetPayload msk @ drop (length (resetPayload msk)) (replicate 8 0),
      of_nat (length (resetPayload msk)))"
    using len by simp
  show "resetCounts u msk w =
     Some (writeBytes u (0x40 + of_nat (lowestSet msk))
             (resetPayload msk @ drop (length (resetPayload msk)) (replicate 8 0))
             (of_nat (length (resetPayload msk))) w)"
    using assms fs sf by (simp add: resetCounts_def)
qed

lemma gate_no_transaction:
  "\<exists>xs. trace (addDelayIfNeeded u w) = trace w @ xs \<and> filter isTransaction xs = []"
  by (simp add: addDelayIfNeeded_def delayMicroseconds_def Let_def)

lemma payload_count:
  "length (resetPayload msk) \<le> 8 \<Longrightarrow>
   take (unat (of_nat (length (resetPayload msk)) :: u8))
     (resetPayload msk @ drop (length (resetPayload msk)) (replicate 8 0)) = resetPayload msk"
  by (simp add: unat_of_nat)

text \<open>
  C2. For every non-zero mask \<^verbatim>\<open>resetCounts\<close> returns, and the bus transactions it makes
  are exactly one frame: the register \<open>0x40\<close> plus the number of trailing zero bits of the
  mask, followed by one byte for each bit position from the lowest set bit through the
  highest set bit, 1 where the bit is set and 0 where it is not. \<^verbatim>\<open>resetCounts(0)\<close> returns
  with the unit and the world as they were: no bus transaction, no delay.
\<close>

theorem resetCounts_frame:
  fixes w :: "'d world"
  shows "(msk \<noteq> 0 \<longrightarrow>
           (\<exists>u' w'. resetCounts u msk w = Some (u', w')
              \<and> filter isTransaction (newEvents w w') =
                  [Frame (clock (addDelayIfNeeded u w)) (wire u) (addr u)
                     ((0x40 + of_nat (lowestSet msk)) # resetPayload msk)
                     (writeStatus u (0x40 + of_nat (lowestSet msk)) (resetPayload msk) w)])
           \<and> bit msk (lowestSet msk) \<and> (\<forall>i<lowestSet msk. \<not> bit msk i)
           \<and> bit msk (highestSet msk) \<and> (\<forall>i>highestSet msk. \<not> bit msk i)
           \<and> resetPayload msk =
               map (\<lambda>i. if bit msk i then 1 else 0) [lowestSet msk..<highestSet msk + 1])
     \<and> resetCounts u 0 w = Some (u, w)"
proof (intro conjI impI)
  show "resetCounts u 0 w = Some (u, w)"
    by (simp add: resetCounts_def)
  show "resetPayload msk = map (\<lambda>i. if bit msk i then 1 else 0) [lowestSet msk..<highestSet msk + 1]"
    by (simp add: resetPayload_def flag_def del: upt_Suc)
next
  assume nz: "msk \<noteq> 0"
  show "bit msk (lowestSet msk)" "\<forall>i<lowestSet msk. \<not> bit msk i"
    using lowestSet_props [OF nz] by simp_all
  show "bit msk (highestSet msk)" "\<forall>i>highestSet msk. \<not> bit msk i"
    using highestSet_props [OF nz] by simp_all
  let ?reg = "0x40 + of_nat (lowestSet msk) :: u8"
  let ?val = "resetPayload msk @ drop (length (resetPayload msk)) (replicate 8 0)"
  let ?n = "of_nat (length (resetPayload msk)) :: u8"
  note rc = resetCounts_eq [OF nz]
  have tk: "take (unat ?n) ?val = resetPayload msk"
    using rc(3) by (rule payload_count)
  obtain xs where xs: "trace (addDelayIfNeeded u w) = trace w @ xs" "filter isTransaction xs = []"
    using gate_no_transaction by blast
  have "trace (snd (writeBytes u ?reg ?val ?n w)) =
      trace (addDelayIfNeeded u w)
      @ [Frame (clock (addDelayIfNeeded u w)) (wire u) (addr u) (?reg # resetPayload msk)
           (writeStatus u ?reg (resetPayload msk) w)]"
    by (simp only: writeBytes_eq(2) tk)
  then have "filter isTransaction (newEvents w (snd (writeBytes u ?reg ?val ?n w))) =
      [Frame (clock (addDelayIfNeeded u w)) (wire u) (addr u) (?reg # resetPayload msk)
         (writeStatus u ?reg (resetPayload msk) w)]"
    using xs by (simp add: newEvents_def)
  then show "\<exists>u' w'. resetCounts u msk w = Some (u', w')
      \<and> filter isTransaction (newEvents w w') =
          [Frame (clock (addDelayIfNeeded u w)) (wire u) (addr u)
             ((0x40 + of_nat (lowestSet msk)) # resetPayload msk)
             (writeStatus u (0x40 + of_nat (lowestSet msk)) (resetPayload msk) w)]"
    using rc(1) by (metis prod.collapse)
qed

text \<open>
  \<^verbatim>\<open>resetCounts(0b00000101)\<close> writes 1, 0, 1 from register 0x40 on;
  \<^verbatim>\<open>resetCounts(0b00101000)\<close> writes 1, 0, 1 from register 0x43 on.
\<close>

theorem resetCounts_frame_witness:
  "map_option (\<lambda>r. filter isTransaction (newEvents (stub_world 0 [] 1000) (snd r)))
     (resetCounts (M5w_8encoder_new 0x41 Wire 0) 5 (stub_world 0 [] 1000))
     = Some [Frame 1000 Wire 0x41 [0x40, 1, 0, 1] 0]
   \<and> map_option (\<lambda>r. filter isTransaction (newEvents (stub_world 0 [] 1000) (snd r)))
     (resetCounts (M5w_8encoder_new 0x41 Wire 0) 0x28 (stub_world 0 [] 1000))
     = Some [Frame 1000 Wire 0x41 [0x43, 1, 0, 1] 0]
   \<and> resetCounts (M5w_8encoder_new 0x41 Wire 0) 0 (stub_world 0 [] 1000)
     = Some (M5w_8encoder_new 0x41 Wire 0, stub_world 0 [] 1000)"
proof -
  let ?e = "M5w_8encoder_new 0x41 Wire 0" and ?w = "stub_world 0 [] 1000"
  have g: "addDelayIfNeeded ?e ?w = ?w"
    by (rule gate_open [where ?t0.0 = 0 and dt = 1000])
      (simp_all add: encoder_new_fields stub_world_def)
  have c: "clock ?w = 1000"
    by (simp add: stub_world_def)
  have p5: "lowestSet 5 = 0" "resetPayload 5 = [1, 0, 1]"
    by (simp_all add: lowestSet_def highestSet_def resetPayload_def bits8_def flag_def
        upt_conv_Cons)
  have p28: "lowestSet 0x28 = 3" "resetPayload 0x28 = [1, 0, 1]"
    by (simp_all add: lowestSet_def highestSet_def resetPayload_def bits8_def flag_def
        upt_conv_Cons)
  have st: "writeStatus ?e reg val ?w = 0" for reg val
    by (rule stub_writeStatus) (simp add: stub_world_def)
  show ?thesis
    using resetCounts_frame [where msk = 5 and u = "?e" and w = "?w"]
      resetCounts_frame [where msk = "0x28" and u = "?e" and w = "?w"]
    by (auto simp: g c p5 p28 st encoder_new_fields)
qed

section \<open>Reading the buttons\<close>

lemma request_dev:
  "tw_requestFrom b a n w = (cnt, w') \<Longrightarrow> dev w' = snd (on_request (hw w) b a n (dev w))"
  by (auto simp: tw_requestFrom_def Let_def split: prod.splits)

lemma readBytes_hw_dev:
  "hw (snd (snd (snd (readBytes u reg val n w)))) = hw w"
  "dev (snd (snd (snd (readBytes u reg val n w)))) =
     (if addressStatus u reg w = 0
      then snd (on_request (hw w) (wire u) (addr u) n
                  (snd (on_frame (hw w) (wire u) (addr u) [reg] (dev w))))
      else snd (on_frame (hw w) (wire u) (addr u) [reg] (dev w)))"
proof -
  define w3 where
    "w3 = tw_send (wire u) reg (tw_beginTransmission (wire u) (addr u) (addDelayIfNeeded u w))"
  obtain e w4 where e: "tw_endTransmission (wire u) w3 = (e, w4)"
    by (cases "tw_endTransmission (wire u) w3")
  note f = address_frame [OF e [unfolded w3_def]]
  have e_eq: "e = addressStatus u reg w"
    using f(1) by (simp add: addressStatus_def addDelay_keeps)
  obtain cnt w5 where r: "tw_requestFrom (wire u) (addr u) n w4 = (cnt, w5)"
    by (cases "tw_requestFrom (wire u) (addr u) n w4")
  note g = data_request [OF r] request_dev [OF r]
  have w: "snd (snd (snd (readBytes u reg val n w))) =
      (if e = 0 then (if cnt \<noteq> 0 then snd (readLoop 0 (unat n) val w5) else w5) else w4)"
    using e r by (simp add: readBytes_def w3_def Let_def split: prod.split)
  show "hw (snd (snd (snd (readBytes u reg val n w)))) = hw w"
    using f(2) g(2) by (simp add: w readLoop_keeps addDelay_keeps)
  show "dev (snd (snd (snd (readBytes u reg val n w)))) =
     (if addressStatus u reg w = 0
      then snd (on_request (hw w) (wire u) (addr u) n
                  (snd (on_frame (hw w) (wire u) (addr u) [reg] (dev w))))
      else snd (on_frame (hw w) (wire u) (addr u) [reg] (dev w)))"
    using f(2,3) g(5) e_eq by (simp add: w readLoop_keeps addDelay_keeps)
qed

lemma getByte_sim:
  assumes "listening u w"
  shows "fst (getByte u reg w) = regs (dev w) reg"
    and "listening (fst (snd (getByte u reg w))) (snd (snd (getByte u reg w)))"
    and "regs (dev (snd (snd (getByte u reg w)))) = regs (dev w)"
proof -
  have h: "hw w = sim_hw" "wire u = Wire" "wire u = sim_bus (dev w)" "addr u = regs (dev w) 0xFF"
    using assms by (simp_all add: listening_def)
  have st: "addressStatus u reg w = 0"
    using sim_gen(1) [OF h(1), of u reg] h by simp
  have dl: "delivered u reg 1 w = [regs (dev w) reg]"
    using sim_gen(3) [OF h(1) h(3,4), of reg 1] by simp
  show "fst (getByte u reg w) = regs (dev w) reg"
    by (rule getByte_delivered [OF h(2) st dl])
  have d: "dev (snd (snd (getByte u reg w))) = (dev w)\<lparr>ptr := reg\<rparr>"
    using st h by (simp add: getByte_world readBytes_hw_dev sim_hw_def sim_frame_def
        sim_request_def)
  then show "regs (dev (snd (snd (getByte u reg w)))) = regs (dev w)"
    by simp
  show "listening (fst (snd (getByte u reg w))) (snd (snd (getByte u reg w)))"
    using h d by (simp add: listening_def getByte_unit getByte_world readBytes_hw_dev)
qed

lemma buttonLoop_sim:
  assumes "listening u w"
  shows "fst (buttonLoop i ch ret u w) =
     ((\<lambda>r. push_bit 1 r OR (if regs (dev w) (0x50 + ch) = 0 then 1 else 0)) ^^ nat (i + 1)) ret"
  using assms
proof (induction i ch ret u w rule: buttonLoop.induct)
  case (1 i ch ret u w)
  show ?case
  proof (cases "i \<ge> 0")
    case False
    then show ?thesis
      by (simp add: buttonLoop.simps [of i])
  next
    case True
    obtain b u1 w1 where g: "getByte u (0x50 + ch) w = (b, u1, w1)"
      by (cases "getByte u (0x50 + ch) w")
    note s = getByte_sim [OF "1.prems", of "0x50 + ch"]
    have b: "b = regs (dev w) (0x50 + ch)" and l1: "listening u1 w1"
      and r1: "regs (dev w1) = regs (dev w)"
      using s g by simp_all
    let ?p = "if regs (dev w) (0x50 + ch) = 0 then 1 else 0 :: u8"
    have n: "nat (i + 1) = Suc (nat (i - 1 + 1))"
      using True by simp
    have "fst (buttonLoop i ch ret u w) = fst (buttonLoop (i - 1) ch (push_bit 1 ret OR ?p) u1 w1)"
      using True g b by (simp add: buttonLoop.simps [of i ch ret u w])
    also have "\<dots> = ((\<lambda>r. push_bit 1 r OR ?p) ^^ nat (i - 1 + 1)) (push_bit 1 ret OR ?p)"
      using "1.IH" [OF True g [symmetric] refl l1] b r1 by simp
    also have "\<dots> = ((\<lambda>r. push_bit 1 r OR ?p) ^^ nat (i + 1)) ret"
      unfolding n by (simp only: funpow_Suc_right o_apply)
    finally show ?thesis .
  qed
qed

lemma getButtons_sim:
  assumes "listening e w"
  shows "fst (getButtons e w) = (if regs (dev w) 0x4F = 0 then 0xFF else 0)"
proof -
  have "fst (getButtons e w) =
      ((\<lambda>r. push_bit 1 r OR (if regs (dev w) (0x50 + (- 1)) = 0 then 1 else 0)) ^^ nat (7 + 1)) 0"
    using buttonLoop_sim [OF assms, of 7 "- 1" 0] by (simp add: getButtons_def getButton_def)
  then show ?thesis
    by (simp add: eval_nat_numeral)
qed

lemma getButton_sim:
  assumes "listening e w" and "sint ch \<ge> 0"
  shows "fst (getButton e ch w) = (if regs (dev w) (0x50 + ch) = 0 then 1 else 0)"
  using getByte_sim(1) [OF assms(1), of "0x50 + ch"] assms(2)
  by (cases "getByte e (0x50 + ch) w") (simp add: getButton_def)

lemma listening_sim_world:
  "listening (M5w_8encoder_new a Wire junk) (sim_world a rs t)"
  by (simp add: listening_def sim_world_fields encoder_new_fields)

text \<open>
  C4 does not hold of the code. The loop of \<^verbatim>\<open>getButton(-1)\<close> reads register
  \<open>0x50 + ch\<close>, that is 0x4F, in each of its eight rounds, so the result is 0xFF when
  register 0x4F reads zero and 0 otherwise (\<open>getButtons_sim\<close>), whatever the button
  registers hold. On an encoder whose buttons 0 and 2 are pressed (their registers read
  zero) and whose other registers read 1, the single-channel reads yield 1, 0 and 1 for
  channels 0, 1 and 2, yet \<^verbatim>\<open>getButtons()\<close> yields 0 where the bitmap would be 5; with no
  button pressed and register 0x4F reading zero it yields 0xFF.
\<close>

theorem getButtons_failing_input:
  "fst (getButtons (M5w_8encoder_new 0x41 Wire 0)
          (sim_world 0x41 ((\<lambda>r. 1)(0x50 := 0, 0x52 := 0)) 1000)) = 0
   \<and> fst (getButton (M5w_8encoder_new 0x41 Wire 0) 0
          (sim_world 0x41 ((\<lambda>r. 1)(0x50 := 0, 0x52 := 0)) 1000)) = 1
   \<and> fst (getButton (M5w_8encoder_new 0x41 Wire 0) 1
          (sim_world 0x41 ((\<lambda>r. 1)(0x50 := 0, 0x52 := 0)) 1000)) = 0
   \<and> fst (getButton (M5w_8encoder_new 0x41 Wire 0) 2
          (sim_world 0x41 ((\<lambda>r. 1)(0x50 := 0, 0x52 := 0)) 1000)) = 1
   \<and> fst (getButtons (M5w_8encoder_new 0x41 Wire 0)
          (sim_world 0x41 ((\<lambda>r. 1)(0x4F := 0)) 1000)) = 0xFF"
  by (simp add: getButtons_sim getButton_sim listening_sim_world sim_world_fields)

section \<open>Units on a second bus object\<close>

text \<open>
  \<^verbatim>\<open>readBytes\<close> addresses the register and requests the data on the bus object the unit
  was constructed with (\<^verbatim>\<open>wire\<close>), but its copy loop pops the global object
  (\<^verbatim>\<open>Wire.read()\<close>). For a unit constructed with another bus object the receive queue of
  the global object does not hold what the target delivered; when it is empty, every byte
  stored is 0xFF, the value of \<^verbatim>\<open>read()\<close> on an empty queue cut to 8 bits.
\<close>

lemma readLoop_empty:
  "i \<le> n \<Longrightarrow> n \<le> length val \<Longrightarrow> rxBuffer (buses w Wire) = [] \<Longrightarrow>
   fst (readLoop i n val w) = take i val @ replicate (n - i) 0xFF @ drop n val"
proof (induction i n val w rule: readLoop.induct)
  case (1 i n val w)
  show ?case
  proof (cases "i < n")
    case True
    have r: "tw_read Wire w = (- 1, w)"
      using "1.prems"(3) by (simp add: tw_read_def)
    have "fst (readLoop (i + 1) n (val[i := word_of_int (- 1)]) w) =
          take (i + 1) (val[i := word_of_int (- 1)]) @ replicate (n - (i + 1)) 0xFF
            @ drop n (val[i := word_of_int (- 1)])"
      using "1.IH" [OF True r [symmetric]] "1.prems" True by simp
    moreover have "take (i + 1) (val[i := x]) = take i val @ [x]" for x
      using True "1.prems" by (simp add: take_Suc_conv_app_nth)
    moreover have "drop n (val[i := x]) = drop n val" for x
      using True by simp
    moreover have "replicate (n - i) (0xFF :: u8) = 0xFF # replicate (n - (i + 1)) 0xFF"
    proof -
      have "n - i = Suc (n - (i + 1))"
        using True by simp
      then show ?thesis
        by simp
    qed
    moreover have "(word_of_int (- 1) :: u8) = 0xFF"
      by simp
    ultimately show ?thesis
      using True r by (simp add: readLoop.simps [of i n val w])
  next
    case False
    with "1.prems" show ?thesis
      by (simp add: readLoop.simps)
  qed
qed

lemma other_bus_untouched:
  "b \<noteq> c \<Longrightarrow> buses (snd (tw_endTransmission b w)) c = buses w c"
  "b \<noteq> c \<Longrightarrow> buses (snd (tw_requestFrom b a n w)) c = buses w c"
  "b \<noteq> c \<Longrightarrow> buses (tw_send b x w) c = buses w c"
  "b \<noteq> c \<Longrightarrow> buses (tw_beginTransmission b a w) c = buses w c"
  by (simp_all add: tw_endTransmission_def tw_requestFrom_def tw_send_def tw_write_def
      tw_beginTransmission_def Let_def split: prod.splits)

lemma readBytes_off_bus:
  assumes "wire u \<noteq> Wire" and "rxBuffer (buses w Wire) = []"
    and "addressStatus u reg w = 0" and "delivered u reg n w \<noteq> []" and "length val = unat n"
  shows "fst (snd (readBytes u reg val n w)) = replicate (unat n) 0xFF"
proof -
  define w3 where
    "w3 = tw_send (wire u) reg (tw_beginTransmission (wire u) (addr u) (addDelayIfNeeded u w))"
  obtain e w4 where e: "tw_endTransmission (wire u) w3 = (e, w4)"
    by (cases "tw_endTransmission (wire u) w3")
  obtain cnt w5 where r: "tw_requestFrom (wire u) (addr u) n w4 = (cnt, w5)"
    by (cases "tw_requestFrom (wire u) (addr u) n w4")
  have "buses w5 Wire = buses w Wire"
    using other_bus_untouched(1) [OF assms(1), of w3] other_bus_untouched(2) [OF assms(1), of "addr u" n w4]
      e r
    by (simp add: w3_def other_bus_untouched(3,4) [OF assms(1)] addDelay_keeps)
  then have rx: "rxBuffer (buses w5 Wire) = []"
    using assms(2) by simp
  have st: "fst (readBytes u reg val n w) = 0"
    using assms(3,4) by (simp add: readBytes_status)
  have e0: "e = 0"
    using address_frame(1) [OF e [unfolded w3_def]] assms(3)
    by (simp add: addressStatus_def addDelay_keeps)
  have "readBytes u reg val n w =
      (if 0 = e then if cnt \<noteq> 0
         then (e, fst (readLoop 0 (unat n) val w5), u\<lparr>endError := e\<rparr>, snd (readLoop 0 (unat n) val w5))
         else (10, val, u\<lparr>endError := 10\<rparr>, w5)
       else (e + 100, val, u\<lparr>endError := e + 100\<rparr>, w4))"
    using e r by (simp add: readBytes_def w3_def Let_def split: prod.split)
  moreover have "fst (readLoop 0 (unat n) val w5) = replicate (unat n) 0xFF"
    using readLoop_empty [of 0 "unat n" val w5] rx assms(5) by simp
  ultimately show ?thesis
    using st e0 by (auto split: if_splits)
qed

lemma writeBytes_other_bus:
  "wire u \<noteq> c \<Longrightarrow> buses (snd (writeBytes u reg val n w)) c = buses w c"
  by (simp add: writeBytes_def tw_endTransmission_def tw_write_buf_def tw_write_def
      tw_beginTransmission_def addDelay_keeps Let_def split: prod.splits)

lemma getByte_off_bus:
  assumes "wire u \<noteq> Wire" and "rxBuffer (buses w Wire) = []"
    and "addressStatus u reg w = 0" and "delivered u reg 1 w \<noteq> []"
  shows "fst (getByte u reg w) = 0xFF"
proof -
  have "fst (readBytes u reg [0] 1 w) = 0"
    using assms(3,4) by (simp add: readBytes_status)
  moreover have "fst (snd (readBytes u reg [0] 1 w)) = [0xFF]"
    using readBytes_off_bus [OF assms(1-4), of "[0]"] by simp
  ultimately show ?thesis
    by (cases "readBytes u reg [0] 1 w") (simp add: getByte_def)
qed

lemma getLong_off_bus:
  assumes "wire u \<noteq> Wire" and "rxBuffer (buses w Wire) = []"
    and "addressStatus u reg w = 0" and "delivered u reg 4 w \<noteq> []"
  shows "fst (getLong u reg w) = 0xFFFFFFFF"
proof -
  have n4: "unat (4 :: u8) = Suc (Suc (Suc (Suc 0)))"
    by simp
  have "fst (readBytes u reg [0, 0, 0, 0] 4 w) = 0"
    using assms(3,4) by (simp add: readBytes_status)
  moreover have "fst (snd (readBytes u reg [0, 0, 0, 0] 4 w)) = replicate (unat (4 :: u8)) 0xFF"
    by (rule readBytes_off_bus [OF assms(1-4)]) simp
  then have "fst (snd (readBytes u reg [0, 0, 0, 0] 4 w)) = [0xFF, 0xFF, 0xFF, 0xFF]"
    unfolding n4 by simp
  ultimately show ?thesis
    by (cases "readBytes u reg [0, 0, 0, 0] 4 w") (simp add: getLong_def u32_of_bytes_def)
qed

lemma sim_world_on_fields:
  "hw (sim_world_on b a rs t) = sim_hw"
  "sim_bus (dev (sim_world_on b a rs t)) = b"
  "regs (dev (sim_world_on b a rs t)) = rs(0xFF := a)"
  "rxBuffer (buses (sim_world_on b a rs t) c) = []"
  by (simp_all add: sim_world_on_def idle_bus_def)

lemma second_bus:
  "Wire1 \<noteq> Wire" "Wire \<noteq> Wire1"
  by (simp_all add: Wire1_def Wire_def)

text \<open>
  C3 does not hold of the code. The status is as the claim says (\<open>readBytes_status_codes\<close>),
  but the received bytes are not what ends up in the caller's storage unless the unit uses
  the default bus object. A unit at 0x43 constructed with the second bus object reads two
  bytes from register 6 of its target, which delivers 0x12 and 0x34: the address frame
  ends with status 0, the request delivers both bytes, \<^verbatim>\<open>readBytes\<close> returns 0, and the
  storage holds 0xFF and 0xFF. The same read by a unit on the default bus object stores
  0x12 and 0x34.
\<close>

theorem readBytes_other_bus:
  "addressStatus (M5w_Unit_new 0x43 Wire1 0) 6
      (sim_world_on Wire1 0x43 ((\<lambda>r. 0)(6 := 0x12, 7 := 0x34)) 1000) = 0
   \<and> delivered (M5w_Unit_new 0x43 Wire1 0) 6 2
      (sim_world_on Wire1 0x43 ((\<lambda>r. 0)(6 := 0x12, 7 := 0x34)) 1000) = [0x12, 0x34]
   \<and> fst (readBytes (M5w_Unit_new 0x43 Wire1 0) 6 [0, 0] 2
      (sim_world_on Wire1 0x43 ((\<lambda>r. 0)(6 := 0x12, 7 := 0x34)) 1000)) = 0
   \<and> fst (snd (readBytes (M5w_Unit_new 0x43 Wire1 0) 6 [0, 0] 2
      (sim_world_on Wire1 0x43 ((\<lambda>r. 0)(6 := 0x12, 7 := 0x34)) 1000))) = [0xFF, 0xFF]
   \<and> fst (snd (readBytes (M5w_Unit_new 0x43 Wire 0) 6 [0, 0] 2
      (sim_world 0x43 ((\<lambda>r. 0)(6 := 0x12, 7 := 0x34)) 1000))) = [0x12, 0x34]"
proof -
  let ?u = "M5w_Unit_new 0x43 Wire1 0"
  let ?w = "sim_world_on Wire1 0x43 ((\<lambda>r. 0)(6 := 0x12, 7 := 0x34)) 1000"
  let ?d = "M5w_Unit_new 0x43 Wire 0"
  let ?dw = "sim_world 0x43 ((\<lambda>r. 0)(6 := 0x12, 7 := 0x34)) 1000"
  have u: "wire ?u = Wire1" "addr ?u = 0x43" "wire ?d = Wire" "addr ?d = 0x43"
    by (simp_all add: M5w_Unit_new_def)
  have st: "addressStatus ?u 6 ?w = 0"
    by (simp add: sim_gen(1) sim_world_on_fields u)
  have dl: "delivered ?u 6 2 ?w = [0x12, 0x34]"
    by (simp add: sim_gen(3) sim_world_on_fields u upt_conv_Cons)
  have ok: "fst (readBytes ?u 6 [0, 0] 2 ?w) = 0"
    by (simp add: readBytes_status st dl)
  have "fst (snd (readBytes ?u 6 [0, 0] 2 ?w)) = replicate (unat (2 :: u8)) 0xFF"
    by (rule readBytes_off_bus) (simp_all add: st dl u second_bus sim_world_on_fields)
  moreover have "unat (2 :: u8) = Suc (Suc 0)"
    by simp
  ultimately have buf: "fst (snd (readBytes ?u 6 [0, 0] 2 ?w)) = [0xFF, 0xFF]"
    by (simp only: replicate.simps)
  have st0: "addressStatus ?d 6 ?dw = 0"
    by (simp add: sim_status u)
  have dl0: "delivered ?d 6 2 ?dw = [0x12, 0x34]"
    by (simp add: sim_delivered u upt_conv_Cons)
  have buf0: "fst (snd (readBytes ?d 6 [0, 0] 2 ?dw)) = [0x12, 0x34]"
    using readBytes_val [of ?d 6 ?dw 2 "[0, 0]"] by (simp add: st0 dl0 u)
  show ?thesis
    using st dl ok buf buf0 by simp
qed

text \<open>
  C9 does not hold of the code. The sentinels are as the claim says
  (\<open>getByte_getLong_sentinels\<close>), but on status 0 the value returned is not made of the bytes
  the device delivered unless the unit uses the default bus object. For a unit at 0x41
  constructed with the second bus object, \<^verbatim>\<open>getByte(0x60)\<close> reads with status 0 a
  register that delivers 1 and returns 0xFF, and \<^verbatim>\<open>getLong(0x04)\<close> reads with status 0
  registers that deliver 0x78, 0x56, 0x34, 0x12 and returns 0xFFFFFFFF. The same calls by
  a unit on the default bus object return 1 and 0x12345678.
\<close>

theorem getByte_getLong_other_bus:
  "fst (readBytes (M5w_Unit_new 0x41 Wire1 0) 0x60 [0] 1
      (sim_world_on Wire1 0x41 ((\<lambda>r. 0)(0x60 := 1)) 1000)) = 0
   \<and> delivered (M5w_Unit_new 0x41 Wire1 0) 0x60 1
      (sim_world_on Wire1 0x41 ((\<lambda>r. 0)(0x60 := 1)) 1000) = [1]
   \<and> fst (getByte (M5w_Unit_new 0x41 Wire1 0) 0x60
      (sim_world_on Wire1 0x41 ((\<lambda>r. 0)(0x60 := 1)) 1000)) = 0xFF
   \<and> fst (readBytes (M5w_Unit_new 0x41 Wire1 0) 0x04 [0, 0, 0, 0] 4
      (sim_world_on Wire1 0x41 ((\<lambda>r. 0)(4 := 0x78, 5 := 0x56, 6 := 0x34, 7 := 0x12)) 1000)) = 0
   \<and> delivered (M5w_Unit_new 0x41 Wire1 0) 0x04 4
      (sim_world_on Wire1 0x41 ((\<lambda>r. 0)(4 := 0x78, 5 := 0x56, 6 := 0x34, 7 := 0x12)) 1000)
        = [0x78, 0x56, 0x34, 0x12]
   \<and> fst (getLong (M5w_Unit_new 0x41 Wire1 0) 0x04
      (sim_world_on Wire1 0x41 ((\<lambda>r. 0)(4 := 0x78, 5 := 0x56, 6 := 0x34, 7 := 0x12)) 1000))
        = 0xFFFFFFFF
   \<and> fst (getByte (M5w_Unit_new 0x41 Wire 0) 0x60
      (sim_world 0x41 ((\<lambda>r. 0)(0x60 := 1)) 1000)) = 1
   \<and> fst (getLong (M5w_Unit_new 0x41 Wire 0) 0x04
      (sim_world 0x41 ((\<lambda>r. 0)(4 := 0x78, 5 := 0x56, 6 := 0x34, 7 := 0x12)) 1000))
        = 0x12345678"
proof -
  let ?u = "M5w_Unit_new 0x41 Wire1 0"
  let ?w1 = "sim_world_on Wire1 0x41 ((\<lambda>r. 0)(0x60 := 1)) 1000"
  let ?w4 = "sim_world_on Wire1 0x41 ((\<lambda>r. 0)(4 := 0x78, 5 := 0x56, 6 := 0x34, 7 := 0x12)) 1000"
  let ?d = "M5w_Unit_new 0x41 Wire 0"
  let ?v1 = "sim_world 0x41 ((\<lambda>r. 0)(0x60 := 1)) 1000"
  let ?v4 = "sim_world 0x41 ((\<lambda>r. 0)(4 := 0x78, 5 := 0x56, 6 := 0x34, 7 := 0x12)) 1000"
  have u: "wire ?u = Wire1" "addr ?u = 0x41" "wire ?d = Wire" "addr ?d = 0x41"
    by (simp_all add: M5w_Unit_new_def)
  have st: "addressStatus ?u 0x60 ?w1 = 0" "addressStatus ?u 0x04 ?w4 = 0"
    by (simp_all add: sim_gen(1) sim_world_on_fields u)
  have d1: "delivered ?u 0x60 1 ?w1 = [1]"
    by (simp add: sim_gen(3) sim_world_on_fields u)
  have d4: "delivered ?u 0x04 4 ?w4 = [0x78, 0x56, 0x34, 0x12]"
    by (simp add: sim_gen(3) sim_world_on_fields u upt_conv_Cons)
  have ok: "fst (readBytes ?u 0x60 [0] 1 ?w1) = 0" "fst (readBytes ?u 0x04 [0, 0, 0, 0] 4 ?w4) = 0"
    by (simp_all add: readBytes_status st d1 d4)
  have b: "fst (getByte ?u 0x60 ?w1) = 0xFF"
    using getByte_off_bus [of ?u ?w1 "0x60"] by (simp add: st d1 u second_bus sim_world_on_fields)
  have l: "fst (getLong ?u 0x04 ?w4) = 0xFFFFFFFF"
    using getLong_off_bus [of ?u ?w4 "0x04"] by (simp add: st d4 u second_bus sim_world_on_fields)
  have st0: "addressStatus ?d 0x60 ?v1 = 0" "addressStatus ?d 0x04 ?v4 = 0"
    by (simp_all add: sim_status u)
  have e1: "delivered ?d 0x60 1 ?v1 = [1]"
    by (simp add: sim_delivered u)
  have e4: "delivered ?d 0x04 4 ?v4 = [0x78, 0x56, 0x34, 0x12]"
    by (simp add: sim_delivered u upt_conv_Cons)
  have b0: "fst (getByte ?d 0x60 ?v1) = 1"
    by (rule getByte_delivered [OF u(3) st0(1) e1])
  have "fst (readBytes ?d 0x04 [0, 0, 0, 0] 4 ?v4) = 0"
    by (simp add: readBytes_status st0 e4)
  moreover have "fst (snd (readBytes ?d 0x04 [0, 0, 0, 0] 4 ?v4)) = [0x78, 0x56, 0x34, 0x12]"
    using readBytes_val [of ?d "0x04" ?v4 4 "[0, 0, 0, 0]"] by (simp add: st0 e4 u)
  ultimately have l0: "fst (getLong ?d 0x04 ?v4) = 0x12345678"
    by (cases "readBytes ?d 0x04 [0, 0, 0, 0] 4 ?v4") (simp add: getLong_def u32_of_bytes_def)
  show ?thesis
    using ok d1 d4 b l b0 l0 by simp
qed

text \<open>
  C6 does not hold of the code. An angle unit at 0x43 constructed with the second bus
  object, channel 3 unhooked, reads register 6 of its target successfully; the target
  delivers 0x00 and 0x01, the raw value 0x0100. The storage then holds 0xFFFF, which is
  above \<open>POTMAX\<close>, and \<^verbatim>\<open>getPot16(3)\<close> returns 0 where \<open>POTMAX - 0x0100 = 3836\<close> is due.
  The same call by a unit on the default bus object returns 3836.
\<close>

theorem getPot16_other_bus:
  "hooks (M5w_8angle_new 0x43 Wire1 0) 3 = unhooked
   \<and> addressStatus (M5w_8angle_new 0x43 Wire1 0) 6
        (sim_world_on Wire1 0x43 ((\<lambda>r. 0)(6 := 0x00, 7 := 0x01)) 1000) = 0
   \<and> delivered (M5w_8angle_new 0x43 Wire1 0) 6 2
        (sim_world_on Wire1 0x43 ((\<lambda>r. 0)(6 := 0x00, 7 := 0x01)) 1000) = [0x00, 0x01]
   \<and> potRaw (M5w_8angle_new 0x43 Wire1 0) 3
        (sim_world_on Wire1 0x43 ((\<lambda>r. 0)(6 := 0x00, 7 := 0x01)) 1000) = Some 0xFFFF
   \<and> map_option fst (getPot16 (M5w_8angle_new 0x43 Wire1 0) 3
        (sim_world_on Wire1 0x43 ((\<lambda>r. 0)(6 := 0x00, 7 := 0x01)) 1000)) = Some 0
   \<and> map_option fst (getPot16 (M5w_8angle_new 0x43 Wire 0) 3
        (sim_world 0x43 ((\<lambda>r. 0)(6 := 0x00, 7 := 0x01)) 1000)) = Some 3836"
proof -
  let ?a = "M5w_8angle_new 0x43 Wire1 0"
  let ?w = "sim_world_on Wire1 0x43 ((\<lambda>r. 0)(6 := 0x00, 7 := 0x01)) 1000"
  let ?d = "M5w_8angle_new 0x43 Wire 0"
  let ?dw = "sim_world 0x43 ((\<lambda>r. 0)(6 := 0x00, 7 := 0x01)) 1000"
  have st: "addressStatus ?a 6 ?w = 0"
    by (simp add: sim_gen(1) sim_world_on_fields angle_new_fields)
  have dl: "delivered ?a 6 2 ?w = [0x00, 0x01]"
    by (simp add: sim_gen(3) sim_world_on_fields angle_new_fields upt_conv_Cons)
  have ok: "fst (readBytes ?a 6 [0, 0] 2 ?w) = 0"
    by (simp add: readBytes_status st dl)
  have "fst (snd (readBytes ?a 6 [0, 0] 2 ?w)) = replicate (unat (2 :: u8)) 0xFF"
    by (rule readBytes_off_bus) (simp_all add: st dl second_bus sim_world_on_fields angle_new_fields)
  moreover have "unat (2 :: u8) = Suc (Suc 0)"
    by simp
  ultimately have buf: "fst (snd (readBytes ?a 6 [0, 0] 2 ?w)) = [0xFF, 0xFF]"
    by (simp only: replicate.simps)
  have raw: "potRaw ?a 3 ?w = Some 0xFFFF"
    using ok buf
    by (cases "readBytes ?a 6 [0, 0] 2 ?w")
      (simp add: potRaw_def angle_new_fields bytes_of_u16_def u16_of_bytes_def)
  have r: "map_option fst (getPot16 ?a 3 ?w) = Some 0"
    by (simp add: getPot16_eq POT_COUNT_def potRead_def raw potDecode_def POTMAX_def
        angle_new_fields Let_def)
  have st0: "addressStatus ?d 6 ?dw = 0"
    by (simp add: sim_status angle_new_fields)
  have dl0: "delivered ?d 6 2 ?dw = [0x00, 0x01]"
    by (simp add: sim_delivered angle_new_fields upt_conv_Cons)
  have "potRaw ?d 3 ?dw = Some (u16_of_bytes [0x00, 0x01])"
    using potRaw_delivered [of ?d 3 ?dw "0x00" "0x01"] by (simp add: st0 dl0 angle_new_fields)
  then have raw0: "potRaw ?d 3 ?dw = Some 0x0100"
    by (simp add: u16_of_bytes_def)
  have r0: "map_option fst (getPot16 ?d 3 ?dw) = Some 3836"
    by (simp add: getPot16_eq POT_COUNT_def potRead_def raw0 potDecode_def POTMAX_def
        angle_new_fields Let_def)
  show ?thesis
    using st dl raw r r0 by (simp add: angle_new_fields)
qed

text \<open>
  C8 does not hold of the code. The order of write and update is as the claim says
  (\<open>setAddress_order\<close>), but the round trip fails unless the unit uses the default bus object.
  For a unit at 0x43 constructed with the second bus object, \<^verbatim>\<open>setAddress(0x44)\<close> succeeds:
  its frame ends with status 0, register 0xFF of the device holds 0x44 and the unit holds
  0x44. The following \<^verbatim>\<open>getAddress()\<close> reads register 0xFF with status 0 and returns
  0xFF. The same two calls by a unit on the default bus object return 0x44.
\<close>

theorem setAddress_other_bus:
  "writeStatus (M5w_Unit_new 0x43 Wire1 0) 0xFF [0x44] (sim_world_on Wire1 0x43 (\<lambda>r. 0) 1000) = 0
   \<and> regs (dev (snd (setAddress (M5w_Unit_new 0x43 Wire1 0) 0x44
        (sim_world_on Wire1 0x43 (\<lambda>r. 0) 1000)))) 0xFF = 0x44
   \<and> addr (fst (setAddress (M5w_Unit_new 0x43 Wire1 0) 0x44
        (sim_world_on Wire1 0x43 (\<lambda>r. 0) 1000))) = 0x44
   \<and> endError (fst (snd (getAddress
        (fst (setAddress (M5w_Unit_new 0x43 Wire1 0) 0x44 (sim_world_on Wire1 0x43 (\<lambda>r. 0) 1000)))
        (snd (setAddress (M5w_Unit_new 0x43 Wire1 0) 0x44 (sim_world_on Wire1 0x43 (\<lambda>r. 0) 1000)))))) = 0
   \<and> fst (getAddress
        (fst (setAddress (M5w_Unit_new 0x43 Wire1 0) 0x44 (sim_world_on Wire1 0x43 (\<lambda>r. 0) 1000)))
        (snd (setAddress (M5w_Unit_new 0x43 Wire1 0) 0x44 (sim_world_on Wire1 0x43 (\<lambda>r. 0) 1000)))) = 0xFF
   \<and> fst (getAddress
        (fst (setAddress (M5w_Unit_new 0x43 Wire 0) 0x44 (sim_world 0x43 (\<lambda>r. 0) 1000)))
        (snd (setAddress (M5w_Unit_new 0x43 Wire 0) 0x44 (sim_world 0x43 (\<lambda>r. 0) 1000)))) = 0x44"
proof -
  let ?v = "M5w_Unit_new 0x43 Wire1 0"
  let ?ws = "sim_world_on Wire1 0x43 (\<lambda>r. 0) 1000"
  define v' where "v' = fst (setAddress ?v 0x44 ?ws)"
  define w' where "w' = snd (setAddress ?v 0x44 ?ws)"
  have ws: "writeStatus ?v 0xFF [0x44] ?ws = 0"
    by (simp add: sim_gen(2) sim_world_on_fields unit_new_fields)
  have v': "wire v' = Wire1" "addr v' = 0x44"
    by (simp_all add: v'_def setAddress_eq writeBytes_keeps unit_new_fields)
  have hw': "hw w' = sim_hw"
    by (simp add: w'_def setAddress_eq writeBytes_eq(3) sim_world_on_fields)
  have dev': "dev w' = \<lparr>sim_bus = Wire1, regs = (\<lambda>r. 0)(0xFF := 0x44), ptr = 0xFF\<rparr>"
    using sim_gen(4) [of ?ws ?v "0xFF" "[0x44]" 1]
    by (simp add: w'_def setAddress_eq sim_world_on_fields unit_new_fields sim_world_on_def)
  have rx: "rxBuffer (buses w' Wire) = []"
    by (simp add: w'_def setAddress_eq writeBytes_other_bus unit_new_fields second_bus
        sim_world_on_fields)
  have st: "addressStatus v' 0xFF w' = 0"
    using sim_gen(1) [OF hw', of v' "0xFF"] by (simp add: v' dev')
  have dl: "delivered v' 0xFF 1 w' = [0x44]"
    using sim_gen(3) [OF hw', of v' "0xFF" 1] by (simp add: v' dev')
  have b: "fst (getAddress v' w') = 0xFF"
    unfolding getAddress_def
    by (rule getByte_off_bus) (simp_all add: v' second_bus rx st dl)
  have e: "endError (fst (snd (getAddress v' w'))) = 0"
    by (simp add: getAddress_def getByte_unit readBytes_status st dl)
  have r: "regs (dev w') 0xFF = 0x44"
    by (simp add: dev')
  let ?d = "M5w_Unit_new 0x43 Wire 0"
  let ?dw = "sim_world 0x43 (\<lambda>r. 0) 1000"
  have "writeStatus ?d 0xFF [0x44] ?dw = 0"
    by (simp add: sim_gen(2) sim_world_fields unit_new_fields)
  then have d: "fst (getAddress (fst (setAddress ?d 0x44 ?dw)) (snd (setAddress ?d 0x44 ?dw))) = 0x44"
    using setAddress_order [where v = "?d" and newAddr = "0x44" and ws = "?dw" and u = "?d" and w = "?dw"]
    by (simp add: sim_world_fields unit_new_fields)
  show ?thesis
    using ws r v'(2) e b d unfolding v'_def w'_def by simp
qed

end
